theory Spec2Isabelle
  imports Main "HOL-Library.Word"
begin

section \<open>vSphere inventory: the Cluster REST resource\<close>

text \<open>
  \<^verbatim>\<open>model/vsphere/model.go\<close>: a reference to another inventory object
  (\<^verbatim>\<open>base.Ref\<close>, of which the source reads \<^verbatim>\<open>Kind\<close> and \<^verbatim>\<open>ID\<close>),
  the base model and the cluster model.
\<close>

record Ref =
  ref_Kind :: string
  ref_ID :: string

record Base =
  base_ID :: string
  base_Name :: string
  base_Parent :: Ref
  base_Revision :: int

record model_Cluster =
  mc_Base :: Base
  mc_Folder :: string
  mc_Hosts :: "Ref list"
  mc_Networks :: "Ref list"
  mc_Datastores :: "Ref list"
  mc_DasEnabled :: bool
  mc_DasVms :: "Ref list"
  mc_DrsEnabled :: bool
  mc_DrsBehavior :: string
  mc_DrsVms :: "Ref list"

text \<open>
  \<^verbatim>\<open>web/vsphere/cluster.go\<close>: the REST resource. The embedded \<^verbatim>\<open>Resource\<close> and its
  \<^verbatim>\<open>With\<close> are declared in another file of the package; the resource type is the type
  parameter \<open>'res\<close> and \<^verbatim>\<open>Resource.With\<close> is the parameter \<open>resource_With\<close> of
  \<open>Cluster_With\<close>.
\<close>

record 'res web_Cluster =
  wc_Resource :: 'res
  wc_Folder :: string
  wc_Networks :: "Ref list"
  wc_Datastores :: "Ref list"
  wc_Hosts :: "Ref list"
  wc_DasEnabled :: bool
  wc_DasVms :: "Ref list"
  wc_DrsEnabled :: bool
  wc_DrsBehavior :: string
  wc_DrsVms :: "Ref list"

definition Cluster_With ::
  "('res \<Rightarrow> Base \<Rightarrow> 'res) \<Rightarrow> 'res web_Cluster \<Rightarrow> model_Cluster \<Rightarrow> 'res web_Cluster" where
  "Cluster_With resource_With r m =
     r\<lparr> wc_Folder := mc_Folder m,
        wc_Resource := resource_With (wc_Resource r) (mc_Base m),
        wc_DasEnabled := mc_DasEnabled m,
        wc_DrsEnabled := mc_DrsEnabled m,
        wc_DrsBehavior := mc_DrsBehavior m,
        wc_Networks := mc_Networks m,
        wc_Datastores := mc_Datastores m,
        wc_Hosts := mc_Hosts m,
        wc_DasVms := mc_DasVms m,
        wc_DrsVms := mc_DasVms m \<rparr>"

section \<open>Migration: conditions, errors and the pipeline\<close>

text \<open>
  The \<^verbatim>\<open>plan\<close> package of the migration controller (\<^verbatim>\<open>migration.go\<close>) works on
  the status types of the plan API and on the condition and itinerary libraries. Their
  declarations are not part of the files at hand; the records below hold the fields the
  controller reads and writes, and the small operations on them follow the
  specification. Times (\<^verbatim>\<open>meta.Time\<close>) are natural numbers, a pointer that may be
  \<^verbatim>\<open>nil\<close> is an \<open>option\<close>, \<^verbatim>\<open>int64\<close> is a 64-bit word and a Go \<^verbatim>\<open>error\<close> is a
  value of \<open>go_error\<close>.
\<close>

type_synonym time = nat

datatype go_error = ProviderNotReadyError string | OtherError string

fun Error_msg :: "go_error \<Rightarrow> string" where
  "Error_msg (ProviderNotReadyError s) = s"
| "Error_msg (OtherError s) = s"

text \<open>\<^verbatim>\<open>errors.As(err, &web.ProviderNotReadyError{})\<close>\<close>

fun As_ProviderNotReadyError :: "go_error \<Rightarrow> bool" where
  "As_ProviderNotReadyError (ProviderNotReadyError s) = True"
| "As_ProviderNotReadyError (OtherError s) = False"

record Condition =
  cnd_Type :: string
  cnd_Status :: string
  cnd_Category :: string
  cnd_Reason :: string
  cnd_Message :: string
  cnd_Durable :: bool
  cnd_LastTransitionTime :: time

abbreviation cnd_True :: string where "cnd_True \<equiv> ''True''"
abbreviation cnd_False :: string where "cnd_False \<equiv> ''False''"
abbreviation Advisory :: string where "Advisory \<equiv> ''Advisory''"
abbreviation UserRequested :: string where "UserRequested \<equiv> ''UserRequested''"

abbreviation Executing :: string where "Executing \<equiv> ''Executing''"
abbreviation Succeeded :: string where "Succeeded \<equiv> ''Succeeded''"
abbreviation Failed :: string where "Failed \<equiv> ''Failed''"
abbreviation Canceled :: string where "Canceled \<equiv> ''Canceled''"
abbreviation Pending :: string where "Pending \<equiv> ''Pending''"
abbreviation Paused :: string where "Paused \<equiv> ''Paused''"
abbreviation Running :: string where "Running \<equiv> ''Running''"
abbreviation Blocked :: string where "Blocked \<equiv> ''Blocked''"

text \<open>Phases and steps (\<^verbatim>\<open>migration.go\<close>, the two \<^verbatim>\<open>const\<close> blocks).\<close>

abbreviation Started :: string where "Started \<equiv> ''Started''"
abbreviation PreHook :: string where "PreHook \<equiv> ''PreHook''"
abbreviation CreateImport :: string where "CreateImport \<equiv> ''CreateImport''"
abbreviation ImportCreated :: string where "ImportCreated \<equiv> ''ImportCreated''"
abbreviation PostHook :: string where "PostHook \<equiv> ''PostHook''"
abbreviation Completed :: string where "Completed \<equiv> ''Completed''"

abbreviation DiskTransfer :: string where "DiskTransfer \<equiv> ''DiskTransfer''"
abbreviation ImageConversion :: string where "ImageConversion \<equiv> ''ImageConversion''"

text \<open>Reasons of the import's \<^verbatim>\<open>Processing\<close> condition (\<^verbatim>\<open>vmio\<close>).\<close>

abbreviation Processing :: string where "Processing \<equiv> ''Processing''"
abbreviation CopyingStage :: string where "CopyingStage \<equiv> ''CopyingStage''"
abbreviation CopyingPaused :: string where "CopyingPaused \<equiv> ''CopyingPaused''"
abbreviation ConvertingGuest :: string where "ConvertingGuest \<equiv> ''ConvertingGuest''"

text \<open>
  Modelled from the spec: the condition collection \<^verbatim>\<open>libcnd.Conditions\<close> (a library
  outside these files). A collection is the list of its conditions, at most one per
  type. \<open>FindCondition\<close> finds the condition of a type; \<open>HasCondition\<close> holds when
  it is there with status \<^verbatim>\<open>True\<close>; \<open>SetCondition\<close> replaces the condition of the same
  type or appends a new one; \<open>DeleteCondition\<close> removes the conditions of the given
  types. The time stamp \<^verbatim>\<open>SetCondition\<close> gives a new condition is left as the caller
  passed it.
\<close>

definition FindCondition :: "Condition list \<Rightarrow> string \<Rightarrow> Condition option" where
  "FindCondition cs ty = find (\<lambda>c. cnd_Type c = ty) cs"

definition HasCondition :: "Condition list \<Rightarrow> string \<Rightarrow> bool" where
  "HasCondition cs ty =
     (case FindCondition cs ty of None \<Rightarrow> False | Some c \<Rightarrow> cnd_Status c = cnd_True)"

definition HasAnyCondition :: "Condition list \<Rightarrow> string list \<Rightarrow> bool" where
  "HasAnyCondition cs tys = list_ex (HasCondition cs) tys"

definition SetCondition :: "Condition \<Rightarrow> Condition list \<Rightarrow> Condition list" where
  "SetCondition c cs =
     (if list_ex (\<lambda>d. cnd_Type d = cnd_Type c) cs
      then map (\<lambda>d. if cnd_Type d = cnd_Type c then c else d) cs
      else cs @ [c])"

definition DeleteCondition :: "string list \<Rightarrow> Condition list \<Rightarrow> Condition list" where
  "DeleteCondition tys cs = filter (\<lambda>c. cnd_Type c \<notin> set tys) cs"

text \<open>
  Modelled from the spec: the error list \<^verbatim>\<open>plan.Error\<close> of a VM or a step, with the
  phase it was opened in and the reasons appended to it.
\<close>

record Error =
  err_Phase :: string
  err_Reasons :: "string list"

definition Error_Add :: "string \<Rightarrow> string list \<Rightarrow> Error option \<Rightarrow> Error option" where
  "Error_Add phase reasons e =
     (case e of
        None \<Rightarrow> Some \<lparr>err_Phase = phase, err_Reasons = reasons\<rparr>
      | Some x \<Rightarrow> Some (x\<lparr>err_Reasons := err_Reasons x @ reasons\<rparr>))"

text \<open>
  Modelled from the spec: \<^verbatim>\<open>plan.Task\<close> and \<^verbatim>\<open>plan.Step\<close>. A step embeds a task and
  adds its sub-tasks, as the record extension does. \<^verbatim>\<open>MarkStarted\<close> and
  \<^verbatim>\<open>MarkCompleted\<close> stamp the first transition only.
\<close>

record Task =
  t_Name :: string
  t_Description :: string
  t_Phase :: string
  t_Reason :: string
  t_Total :: "64 word"
  t_Completed_Progress :: "64 word"
  t_Annotations :: "(string \<times> string) list"
  t_Error :: "Error option"
  t_Started :: "time option"
  t_Completed :: "time option"

record Step = Task +
  s_Tasks :: "Task list"

definition t_MarkStarted :: "time \<Rightarrow> 'a Task_scheme \<Rightarrow> 'a Task_scheme" where
  "t_MarkStarted now t = (if t_Started t = None then t\<lparr>t_Started := Some now\<rparr> else t)"

definition t_MarkCompleted :: "time \<Rightarrow> 'a Task_scheme \<Rightarrow> 'a Task_scheme" where
  "t_MarkCompleted now t = (if t_Completed t = None then t\<lparr>t_Completed := Some now\<rparr> else t)"

definition t_MarkedStarted :: "'a Task_scheme \<Rightarrow> bool" where
  "t_MarkedStarted t = (t_Started t \<noteq> None)"

definition t_MarkedCompleted :: "'a Task_scheme \<Rightarrow> bool" where
  "t_MarkedCompleted t = (t_Completed t \<noteq> None)"

definition s_AddError :: "string list \<Rightarrow> Step \<Rightarrow> Step" where
  "s_AddError reasons s = s\<lparr>t_Error := Error_Add (t_Phase s) reasons (t_Error s)\<rparr>"

text \<open>\<^verbatim>\<open>Step.FindTask\<close>: the position of the first task of that name.\<close>

fun FindTask :: "Task list \<Rightarrow> string \<Rightarrow> nat option" where
  "FindTask [] name = None"
| "FindTask (t # ts) name =
     (if t_Name t = name then Some 0 else map_option Suc (FindTask ts name))"

text \<open>
  Modelled from the spec: a VM of the plan (\<^verbatim>\<open>plan.VM\<close>: its reference and its hook
  bindings), the warm-import substate and the per-VM status \<^verbatim>\<open>plan.VMStatus\<close>, which
  embeds the VM, the started/completed pair and the conditions.
\<close>

record PlanRef =
  pr_ID :: string
  pr_Name :: string

record HookRef =
  hk_Step :: string
  hk_Hook :: string

record VM =
  vm_Ref :: PlanRef
  vm_Hooks :: "HookRef list"

record Precopy =
  pc_Start :: "time option"
  pc_End :: "time option"

record Warm =
  w_Successes :: int
  w_Failures :: int
  w_ConsecutiveFailures :: int
  w_NextPrecopyAt :: "time option"
  w_Precopies :: "Precopy list"

record VMStatus = VM +
  vm_Started :: "time option"
  vm_Completed :: "time option"
  vm_Pipeline :: "Step list"
  vm_Phase :: string
  vm_Error :: "Error option"
  vm_Warm :: "Warm option"
  vm_Conditions :: "Condition list"

definition FindHook :: "'a VM_scheme \<Rightarrow> string \<Rightarrow> HookRef option" where
  "FindHook vm step = find (\<lambda>h. hk_Step h = step) (vm_Hooks vm)"

definition FindStep :: "VMStatus \<Rightarrow> string \<Rightarrow> Step option" where
  "FindStep vm name = find (\<lambda>s. t_Name s = name) (vm_Pipeline vm)"

definition AddError :: "string list \<Rightarrow> VMStatus \<Rightarrow> VMStatus" where
  "AddError reasons vm = vm\<lparr>vm_Error := Error_Add (vm_Phase vm) reasons (vm_Error vm)\<rparr>"

definition vm_SetCondition :: "Condition \<Rightarrow> VMStatus \<Rightarrow> VMStatus" where
  "vm_SetCondition c vm = vm\<lparr>vm_Conditions := SetCondition c (vm_Conditions vm)\<rparr>"

definition MarkStarted :: "time \<Rightarrow> VMStatus \<Rightarrow> VMStatus" where
  "MarkStarted now vm = (if vm_Started vm = None then vm\<lparr>vm_Started := Some now\<rparr> else vm)"

definition MarkCompleted :: "time \<Rightarrow> VMStatus \<Rightarrow> VMStatus" where
  "MarkCompleted now vm =
     (if vm_Completed vm = None then vm\<lparr>vm_Completed := Some now\<rparr> else vm)"

definition MarkedCompleted :: "VMStatus \<Rightarrow> bool" where
  "MarkedCompleted vm = (vm_Completed vm \<noteq> None)"

definition MarkReset :: "VMStatus \<Rightarrow> VMStatus" where
  "MarkReset vm = vm\<lparr>vm_Started := None, vm_Completed := None\<rparr>"

text \<open>
  Modelled from the spec: \<^verbatim>\<open>MigrationSpec.Canceled\<close>, whether a VM reference is in the
  migration's cancel set; references are matched by their ID.
\<close>

definition Spec_Canceled :: "PlanRef list \<Rightarrow> PlanRef \<Rightarrow> bool" where
  "Spec_Canceled cancel ref = list_ex (\<lambda>r. pr_ID r = pr_ID ref) cancel"

section \<open>Migration: the itinerary\<close>

text \<open>
  \<^verbatim>\<open>migration.go\<close>: the predicate flags, the itinerary and the step predicate
  (\<^verbatim>\<open>Predicate.Evaluate\<close>).
\<close>

definition HasPreHook :: nat where "HasPreHook = 1"
definition HasPostHook :: nat where "HasPostHook = 2"

record ItStep =
  it_Name :: string
  it_All :: nat

definition itinerary :: "ItStep list" where
  "itinerary =
     [\<lparr>it_Name = Started, it_All = 0\<rparr>,
      \<lparr>it_Name = PreHook, it_All = HasPreHook\<rparr>,
      \<lparr>it_Name = CreateImport, it_All = 0\<rparr>,
      \<lparr>it_Name = ImportCreated, it_All = 0\<rparr>,
      \<lparr>it_Name = PostHook, it_All = HasPostHook\<rparr>,
      \<lparr>it_Name = Completed, it_All = 0\<rparr>]"

definition Evaluate :: "'a VM_scheme \<Rightarrow> nat \<Rightarrow> bool" where
  "Evaluate vm flag =
     (if length (vm_Hooks vm) = 0 then False
      else if flag = HasPreHook then FindHook vm PreHook \<noteq> None
      else if flag = HasPostHook then FindHook vm PostHook \<noteq> None
      else False)"

text \<open>
  Modelled from the spec: the itinerary driver \<^verbatim>\<open>libitr.Itinerary\<close> (a library outside
  these files). An entry with no flag is admissible, an entry guarded by a flag is admissible when
  the predicate evaluates the flag true; \<open>itinerary_First\<close> is the first admissible entry; \<open>itinerary_Next\<close> is the
  next admissible entry after the named phase, \<^verbatim>\<open>done\<close> when the end is reached, and a
  failure when the name is not an entry's. The result is \<^verbatim>\<open>(step, done, err)\<close>, the step
  being the zero value when there is none.
\<close>

definition admissible :: "'a VM_scheme \<Rightarrow> ItStep \<Rightarrow> bool" where
  "admissible vm e = (if it_All e = 0 then True else Evaluate vm (it_All e))"

definition zero_ItStep :: ItStep where
  "zero_ItStep = \<lparr>it_Name = [], it_All = 0\<rparr>"

definition itinerary_First :: "'a VM_scheme \<Rightarrow> ItStep \<times> go_error option" where
  "itinerary_First vm =
     (case filter (admissible vm) itinerary of
        [] \<Rightarrow> (zero_ItStep, Some (OtherError ''step not found''))
      | e # _ \<Rightarrow> (e, None))"

definition itinerary_Next :: "'a VM_scheme \<Rightarrow> string \<Rightarrow> ItStep \<times> bool \<times> go_error option" where
  "itinerary_Next vm name =
     (case dropWhile (\<lambda>e. it_Name e \<noteq> name) itinerary of
        [] \<Rightarrow> (zero_ItStep, False, Some (OtherError ''step not found''))
      | _ # rest \<Rightarrow>
          (case filter (admissible vm) rest of
             [] \<Rightarrow> (zero_ItStep, True, None)
           | e # _ \<Rightarrow> (e, False, None)))"

text \<open>
  \<^verbatim>\<open>Migration.next\<close>. The itinerary's predicate is the global the caller has just set
  to the VM at hand; here the VM is an argument.
\<close>

definition "next" :: "'a VM_scheme \<Rightarrow> string \<Rightarrow> string" where
  "next vm phase =
     (case itinerary_Next vm phase of
        (step, done, err) \<Rightarrow> if done \<or> err \<noteq> None then Completed else it_Name step)"

section \<open>Migration: the controller\<close>

text \<open>
  The observed import resource (\<^verbatim>\<open>VmImport\<close>) and its data volumes, declared in
  another file of the package. The controller multiplies the floating-point
  \<^verbatim>\<open>PercentComplete()\<close> by a total and truncates the product to \<^verbatim>\<open>int64\<close>; that
  product, as a function of the total, is the field \<open>dv_Progress\<close> (\<open>imp_Progress\<close>).
\<close>

record DataVolume =
  dv_DataVolume :: string
  dv_Conditions :: "Condition list"
  dv_Progress :: "64 word \<Rightarrow> 64 word"

record VmImport =
  imp_Warm :: bool
  imp_Successes :: int
  imp_Failures :: int
  imp_ConsecutiveFailures :: int
  imp_NextStageTime :: "time option"
  imp_Conditions :: "Condition list"
  imp_DataVolumes :: "DataVolume list"
  imp_Progress :: "64 word \<Rightarrow> 64 word"

text \<open>
  The receiver \<^verbatim>\<open>r *Migration\<close>: the context of one reconcile and the collaborators
  the controller calls, whose code is outside these files. Each collaborator is a
  field: the hook runner and the two reflections return the status they leave; the
  others return their error or result. \<open>r_now\<close> is the clock.
\<close>

record Migration =
  r_now :: time
  r_Cancel :: "PlanRef list"
  r_ProviderType :: string
  r_HookRunner_Run :: "VMStatus \<Rightarrow> go_error option \<times> VMStatus"
  r_EnsureImport :: "VMStatus \<Rightarrow> go_error option"
  r_ImportMap :: "go_error + (string \<Rightarrow> VmImport option)"
  r_Tasks :: "PlanRef \<Rightarrow> go_error + Task list"
  r_ResolveDataVolumeIdentifier :: "string \<Rightarrow> string"
  r_ReflectPipeline :: "VMStatus \<Rightarrow> VMStatus"
  r_ReflectTasks :: "Step \<Rightarrow> Step"
  r_InventoryVM :: "PlanRef \<Rightarrow> go_error + PlanRef"
  r_EnsureNamespace :: "go_error option"
  r_DeleteImport :: "VMStatus \<Rightarrow> go_error option"
  r_init :: "go_error option"

abbreviation VSphere :: string where "VSphere \<equiv> ''vsphere''"

subsection \<open>\<^verbatim>\<open>updateWarmStatus\<close>\<close>

definition updatePrecopies :: "Condition option \<Rightarrow> Precopy list \<Rightarrow> Precopy list" where
  "updatePrecopies cnd ps =
     (case cnd of
        None \<Rightarrow> ps
      | Some c \<Rightarrow>
          if cnd_Reason c = CopyingStage then
            (if length ps = 0 \<or> pc_End (ps ! (length ps - 1)) \<noteq> None
             then ps @ [\<lparr>pc_Start = Some (cnd_LastTransitionTime c), pc_End = None\<rparr>]
             else ps)
          else if cnd_Reason c = CopyingPaused then
            (if length ps \<noteq> 0 \<and> pc_End (ps ! (length ps - 1)) = None
             then ps[length ps - 1 :=
                    (ps ! (length ps - 1))\<lparr>pc_End := Some (cnd_LastTransitionTime c)\<rparr>]
             else ps)
          else ps)"

definition updateWarmStatus :: "VMStatus \<Rightarrow> VmImport \<Rightarrow> VMStatus" where
  "updateWarmStatus vm imp =
     (let w0 = (case vm_Warm vm of
                  None \<Rightarrow> \<lparr>w_Successes = 0, w_Failures = 0, w_ConsecutiveFailures = 0,
                            w_NextPrecopyAt = None, w_Precopies = []\<rparr>
                | Some w \<Rightarrow> w);
          w1 = w0\<lparr>w_Successes := imp_Successes imp,
                  w_Failures := imp_Failures imp,
                  w_ConsecutiveFailures := imp_ConsecutiveFailures imp,
                  w_NextPrecopyAt := imp_NextStageTime imp\<rparr>
      in vm\<lparr>vm_Warm := Some (w1\<lparr>w_Precopies :=
            updatePrecopies (FindCondition (imp_Conditions imp) Processing) (w_Precopies w1)\<rparr>)\<rparr>)"

subsection \<open>\<^verbatim>\<open>updatePipeline\<close>\<close>

text \<open>
  One round of the \<^verbatim>\<open>nextDv\<close> loop. The state is the step's tasks with the three
  counters. \<open>dvRunning\<close> is the part of the body after the \<^verbatim>\<open>Bound\<close> check.
\<close>

type_synonym dv_state = "Task list \<times> nat \<times> nat \<times> nat"

definition dvRunning :: "time \<Rightarrow> DataVolume \<Rightarrow> nat \<Rightarrow> dv_state \<Rightarrow> dv_state" where
  "dvRunning now dv i st =
     (case st of (tasks, tasksBlocked, tasksCompleted, tasksRunning) \<Rightarrow>
        (case FindCondition (dv_Conditions dv) Running of
           None \<Rightarrow> st
         | Some cnd \<Rightarrow>
             let task = t_MarkStarted now (tasks ! i);
                 task = task\<lparr>t_Phase := Running, t_Reason := cnd_Reason cnd\<rparr>;
                 task = task\<lparr>t_Completed_Progress := dv_Progress dv (t_Total task)\<rparr>
             in if HasCondition (dv_Conditions dv) ''Ready''
                then (tasks[i := t_MarkCompleted now
                                   (task\<lparr>t_Completed_Progress := t_Total task\<rparr>)],
                      tasksBlocked, tasksCompleted + 1, tasksRunning + 1)
                else (tasks[i := task], tasksBlocked, tasksCompleted, tasksRunning + 1)))"

definition dvUpdate :: "Migration \<Rightarrow> DataVolume \<Rightarrow> dv_state \<Rightarrow> dv_state" where
  "dvUpdate r dv st =
     (case st of (tasks, tasksBlocked, tasksCompleted, tasksRunning) \<Rightarrow>
        (case FindTask tasks (r_ResolveDataVolumeIdentifier r (dv_DataVolume dv)) of
           None \<Rightarrow> st
         | Some i \<Rightarrow>
             (case FindCondition (dv_Conditions dv) ''Bound'' of
                None \<Rightarrow> dvRunning (r_now r) dv i st
              | Some cnd \<Rightarrow>
                  if cnd_Status cnd = cnd_False
                  then (tasks[i := (tasks ! i)\<lparr>t_Phase := Blocked, t_Reason := cnd_Reason cnd\<rparr>],
                        tasksBlocked + 1, tasksCompleted, tasksRunning)
                  else dvRunning (r_now r) dv i st)))"

definition stepDiskTransfer :: "Migration \<Rightarrow> VmImport \<Rightarrow> Step \<Rightarrow> Step" where
  "stepDiskTransfer r imp step =
     (case fold (dvUpdate r) (imp_DataVolumes imp) (s_Tasks step, 0, 0, 0) of
        (tasks, tasksBlocked, tasksCompleted, tasksRunning) \<Rightarrow>
          let step = step\<lparr>s_Tasks := tasks\<rparr>
          in if tasksCompleted = length (s_Tasks step) then step\<lparr>t_Phase := Completed\<rparr>
             else if tasksBlocked > 0 then step\<lparr>t_Phase := Blocked\<rparr>
             else if tasksRunning > 0 then step\<lparr>t_Phase := Running\<rparr>
             else step)"

definition stepImageConversion ::
  "Migration \<Rightarrow> VmImport \<Rightarrow> VMStatus \<Rightarrow> Step \<Rightarrow> VMStatus \<times> Step" where
  "stepImageConversion r imp vm step =
     (let conditions = imp_Conditions imp;
          (vm, step) =
            (case FindCondition conditions Processing of
               None \<Rightarrow> (vm, step)
             | Some cnd \<Rightarrow>
                 let (vm, step) =
                       (if cnd_Reason cnd = Pending then
                          (vm_SetCondition
                             \<lparr>cnd_Type = Pending, cnd_Status = cnd_True, cnd_Category = Advisory,
                              cnd_Reason = [], cnd_Message = ''The VM migration is PENDING.'',
                              cnd_Durable = False, cnd_LastTransitionTime = 0\<rparr> vm, step)
                        else if cnd_Reason cnd = CopyingPaused then
                          (vm_SetCondition
                             \<lparr>cnd_Type = Paused, cnd_Status = cnd_True, cnd_Category = Advisory,
                              cnd_Reason = [], cnd_Message = ''The VM migration is PAUSED.'',
                              cnd_Durable = False, cnd_LastTransitionTime = 0\<rparr> vm, step)
                        else if cnd_Reason cnd = ConvertingGuest then
                          (vm, if cnd_Status cnd = cnd_True
                               then t_MarkStarted (r_now r) step else step)
                        else (vm, step))
                 in (vm, if t_MarkedStarted step
                         then step\<lparr>t_Phase := cnd_Reason cnd\<rparr> else step));
          step = step\<lparr>t_Completed_Progress := imp_Progress imp (t_Total step)\<rparr>
      in (case FindCondition conditions Succeeded of
            None \<Rightarrow> (vm, step)
          | Some cnd \<Rightarrow>
              let step = t_MarkCompleted (r_now r) step;
                  step = step\<lparr>t_Completed_Progress := t_Total step\<rparr>
              in if cnd_Status cnd \<noteq> cnd_True
                 then (vm, (s_AddError [cnd_Message cnd] step)\<lparr>t_Phase := cnd_Reason cnd\<rparr>)
                 else (vm, step\<lparr>t_Phase := Completed\<rparr>)))"

text \<open>
  The loop over the pipeline. The steps are updated in place; the VM's conditions and
  errors are threaded through, and the updated steps are stored at the end.
\<close>

fun updateSteps :: "Migration \<Rightarrow> VmImport \<Rightarrow> Step list \<Rightarrow> VMStatus \<Rightarrow> Step list \<times> VMStatus" where
  "updateSteps r imp [] vm = ([], vm)"
| "updateSteps r imp (step # steps) vm =
     (if t_MarkedCompleted step then
        (case updateSteps r imp steps vm of (ss, vm') \<Rightarrow> (step # ss, vm'))
      else
        let (vm, step) =
              (if t_Name step = DiskTransfer then (vm, stepDiskTransfer r imp step)
               else if t_Name step = ImageConversion then stepImageConversion r imp vm step
               else (vm, step));
            step = r_ReflectTasks r step;
            vm = (case t_Error step of
                    None \<Rightarrow> vm
                  | Some e \<Rightarrow> AddError (err_Reasons e) vm)
        in (case updateSteps r imp steps vm of (ss, vm') \<Rightarrow> (step # ss, vm')))"

definition updatePipeline :: "Migration \<Rightarrow> VMStatus \<Rightarrow> VmImport \<Rightarrow> VMStatus" where
  "updatePipeline r vm imp =
     (case updateSteps r imp (vm_Pipeline vm) vm of (ss, vm') \<Rightarrow> vm'\<lparr>vm_Pipeline := ss\<rparr>)"

subsection \<open>\<^verbatim>\<open>updateVM\<close>\<close>

definition updateVM :: "Migration \<Rightarrow> VMStatus \<Rightarrow> go_error option \<times> VMStatus" where
  "updateVM r vm =
     (case r_ImportMap r of
        Inl err \<Rightarrow> (Some err, vm)
      | Inr importMap \<Rightarrow>
          (case importMap (pr_ID (vm_Ref vm)) of
             None \<Rightarrow> (None, AddError [''Import CR not found.''] vm)
           | Some imp \<Rightarrow>
               let vm = updatePipeline r vm imp
               in (None, if imp_Warm imp then updateWarmStatus vm imp else vm)))"

subsection \<open>\<^verbatim>\<open>step\<close>\<close>

definition cnd_Canceled :: Condition where
  "cnd_Canceled =
     \<lparr>cnd_Type = Canceled, cnd_Status = cnd_True, cnd_Category = Advisory,
      cnd_Reason = UserRequested, cnd_Message = ''The migration has been canceled.'',
      cnd_Durable = True, cnd_LastTransitionTime = 0\<rparr>"

definition cnd_Succeeded :: Condition where
  "cnd_Succeeded =
     \<lparr>cnd_Type = Succeeded, cnd_Status = cnd_True, cnd_Category = Advisory,
      cnd_Reason = [], cnd_Message = ''The VM migration has SUCCEEDED.'',
      cnd_Durable = True, cnd_LastTransitionTime = 0\<rparr>"

definition cnd_Failed :: Condition where
  "cnd_Failed =
     \<lparr>cnd_Type = Failed, cnd_Status = cnd_True, cnd_Category = Advisory,
      cnd_Reason = [], cnd_Message = ''The VM migration has FAILED.'',
      cnd_Durable = True, cnd_LastTransitionTime = 0\<rparr>"

text \<open>
  The \<^verbatim>\<open>switch vm.Phase\<close> of \<^verbatim>\<open>step\<close>. A result with an error is a \<^verbatim>\<open>return\<close> from
  inside the switch; a result without one goes on to the code after the switch.
\<close>

definition stepImport :: "VMStatus \<Rightarrow> Step option \<Rightarrow> VMStatus" where
  "stepImport vm found =
     (case found of
        None \<Rightarrow> vm
      | Some step \<Rightarrow>
          if t_MarkedCompleted step then
            (if t_Error step = None then vm\<lparr>vm_Phase := next vm (vm_Phase vm)\<rparr>
             else vm\<lparr>vm_Phase := Completed\<rparr>)
          else vm)"

definition stepSwitch :: "Migration \<Rightarrow> VMStatus \<Rightarrow> go_error option \<times> VMStatus" where
  "stepSwitch r vm =
     (if vm_Phase vm = Started then
        (let vm = MarkStarted (r_now r) vm in (None, vm\<lparr>vm_Phase := next vm (vm_Phase vm)\<rparr>))
      else if vm_Phase vm = PreHook \<or> vm_Phase vm = PostHook then
        (case r_HookRunner_Run r vm of
           (Some err, vm) \<Rightarrow> (Some err, vm)
         | (None, vm) \<Rightarrow>
             (case FindStep vm (vm_Phase vm) of
                Some step \<Rightarrow>
                  if t_MarkedCompleted step \<and> t_Error step = None
                  then (None, vm\<lparr>vm_Phase := next vm (vm_Phase vm)\<rparr>)
                  else (None, vm)
              | None \<Rightarrow> (None, vm\<lparr>vm_Phase := Completed\<rparr>)))
      else if vm_Phase vm = CreateImport then
        (case r_EnsureImport r vm of
           Some err \<Rightarrow>
             if \<not> As_ProviderNotReadyError err then (None, AddError [Error_msg err] vm)
             else (Some err, vm)
         | None \<Rightarrow> (None, vm\<lparr>vm_Phase := next vm (vm_Phase vm)\<rparr>))
      else if vm_Phase vm = ImportCreated then
        (case r_EnsureImport r vm of
           Some err \<Rightarrow>
             if \<not> As_ProviderNotReadyError err then (None, AddError [Error_msg err] vm)
             else (Some err, vm)
         | None \<Rightarrow>
             (case updateVM r vm of
                (Some rErr, vm) \<Rightarrow> (Some rErr, vm)
              | (None, vm) \<Rightarrow>
                  (case FindStep vm ImageConversion of
                     Some step \<Rightarrow> (None, stepImport vm (Some step))
                   | None \<Rightarrow> (None, stepImport vm (FindStep vm DiskTransfer)))))
      else if vm_Phase vm = Completed then (None, MarkCompleted (r_now r) vm)
      else
        (let vm = vm\<lparr>vm_Phase := Completed\<rparr>
         in (None, AddError [''Phase ['' @ vm_Phase vm @ ''] unknown''] vm)))"

text \<open>The code after the switch: reflect the pipeline, then stamp the outcome.\<close>

definition stepStamp :: "VMStatus \<Rightarrow> VMStatus" where
  "stepStamp vm =
     (if vm_Phase vm = Completed \<and> vm_Error vm = None then vm_SetCondition cnd_Succeeded vm
      else if vm_Error vm \<noteq> None
      then vm_SetCondition cnd_Failed (vm\<lparr>vm_Phase := Completed\<rparr>)
      else vm)"

definition step :: "Migration \<Rightarrow> VMStatus \<Rightarrow> go_error option \<times> VMStatus" where
  "step r vm =
     (if Spec_Canceled (r_Cancel r) (vm_Ref vm)
      then (None, (vm_SetCondition cnd_Canceled vm)\<lparr>vm_Phase := Completed\<rparr>)
      else
        (case stepSwitch r vm of
           (Some err, vm) \<Rightarrow> (Some err, vm)
         | (None, vm) \<Rightarrow> (None, stepStamp (r_ReflectPipeline r vm))))"

subsection \<open>\<^verbatim>\<open>buildPipeline\<close>\<close>

text \<open>
  The \<^verbatim>\<open>switch step.Name\<close> of the loop: the steps one itinerary entry adds to the
  pipeline, or the builder's error.
\<close>

definition hookStep :: "string \<Rightarrow> string \<Rightarrow> Step" where
  "hookStep name description =
     \<lparr>t_Name = name, t_Description = description, t_Phase = [], t_Reason = [],
      t_Total = 1, t_Completed_Progress = 0, t_Annotations = [], t_Error = None,
      t_Started = None, t_Completed = None, s_Tasks = []\<rparr>"

definition buildStep ::
  "Migration \<Rightarrow> 'a VM_scheme \<Rightarrow> string \<Rightarrow> Step list \<Rightarrow> go_error + Step list" where
  "buildStep r vm name pipeline =
     (if name = PreHook then Inr (pipeline @ [hookStep PreHook ''Run pre-migration hook.''])
      else if name = CreateImport then
        (case r_Tasks r (vm_Ref vm) of
           Inl pErr \<Rightarrow> Inl pErr
         | Inr tasks \<Rightarrow>
             let total = fold (\<lambda>task total. total + t_Total task) tasks 0;
                 pipeline = pipeline @
                   [\<lparr>t_Name = DiskTransfer, t_Description = ''Transfer disks.'', t_Phase = [],
                     t_Reason = [], t_Total = total, t_Completed_Progress = 0,
                     t_Annotations = [(''unit'', ''MB'')], t_Error = None,
                     t_Started = None, t_Completed = None, s_Tasks = tasks\<rparr>]
             in Inr (if r_ProviderType r = VSphere
                     then pipeline @ [hookStep ImageConversion ''Convert image to kubevirt.'']
                     else pipeline))
      else if name = PostHook
      then Inr (pipeline @ [hookStep PostHook ''Run post-migration hook.''])
      else Inr pipeline)"

text \<open>
  The \<^verbatim>\<open>for\<close> loop of \<^verbatim>\<open>buildPipeline\<close> has no bound of its own: it ends when the
  itinerary reports \<^verbatim>\<open>done\<close>, and the error of \<^verbatim>\<open>itinerary.Next\<close> is dropped. A run
  that does not end is the value \<open>None\<close>.
\<close>

partial_function (option) buildLoop ::
  "Migration \<Rightarrow> VM \<Rightarrow> ItStep \<Rightarrow> Step list \<Rightarrow> (go_error + Step list) option" where
  "buildLoop r vm entry pipeline =
     (case buildStep r vm (it_Name entry) pipeline of
        Inl err \<Rightarrow> Some (Inl err)
      | Inr pipeline \<Rightarrow>
          (case itinerary_Next vm (it_Name entry) of
             (nxt, done, err) \<Rightarrow>
               if \<not> done then buildLoop r vm nxt pipeline else Some (Inr pipeline)))"

definition buildPipeline :: "Migration \<Rightarrow> VM \<Rightarrow> (go_error + Step list) option" where
  "buildPipeline r vm = (case itinerary_First vm of (entry, err) \<Rightarrow> buildLoop r vm entry [])"

subsection \<open>\<^verbatim>\<open>begin\<close>, \<^verbatim>\<open>Cancel\<close> and \<^verbatim>\<open>end\<close>\<close>

text \<open>
  Modelled from the spec: the plan as the controller sees it. The plan's spec lists the
  VMs; its migration status holds the started/completed pair, the list of VM statuses
  and the active snapshot with its conditions. \<^verbatim>\<open>PlanSpec.FindVM\<close> and
  \<^verbatim>\<open>MigrationStatus.FindVM\<close> match a reference by its ID; the latter gives the position
  of the status it finds.
\<close>

record Snapshot =
  snap_Conditions :: "Condition list"

record MigrationStatus =
  ms_Started :: "time option"
  ms_Completed :: "time option"
  ms_VMs :: "VMStatus list"
  ms_Snapshot :: Snapshot

record Plan =
  p_VMs :: "VM list"
  p_Migration :: MigrationStatus

definition Spec_FindVM :: "VM list \<Rightarrow> PlanRef \<Rightarrow> VM option" where
  "Spec_FindVM vms ref = find (\<lambda>vm. pr_ID (vm_Ref vm) = pr_ID ref) vms"

fun Status_FindVM :: "VMStatus list \<Rightarrow> PlanRef \<Rightarrow> nat option" where
  "Status_FindVM [] ref = None"
| "Status_FindVM (vm # vms) ref =
     (if pr_ID (vm_Ref vm) = pr_ID ref then Some 0 else map_option Suc (Status_FindVM vms ref))"

definition ms_MarkReset :: "MigrationStatus \<Rightarrow> MigrationStatus" where
  "ms_MarkReset ms = ms\<lparr>ms_Started := None, ms_Completed := None\<rparr>"

definition ms_MarkStarted :: "time \<Rightarrow> MigrationStatus \<Rightarrow> MigrationStatus" where
  "ms_MarkStarted now ms = (if ms_Started ms = None then ms\<lparr>ms_Started := Some now\<rparr> else ms)"

definition ms_MarkCompleted :: "time \<Rightarrow> MigrationStatus \<Rightarrow> MigrationStatus" where
  "ms_MarkCompleted now ms =
     (if ms_Completed ms = None then ms\<lparr>ms_Completed := Some now\<rparr> else ms)"

definition snap_SetCondition :: "Condition \<Rightarrow> MigrationStatus \<Rightarrow> MigrationStatus" where
  "snap_SetCondition c ms =
     ms\<lparr>ms_Snapshot := (ms_Snapshot ms)\<lparr>snap_Conditions :=
           SetCondition c (snap_Conditions (ms_Snapshot ms))\<rparr>\<rparr>"

definition snap_DeleteCondition :: "string list \<Rightarrow> MigrationStatus \<Rightarrow> MigrationStatus" where
  "snap_DeleteCondition tys ms =
     ms\<lparr>ms_Snapshot := (ms_Snapshot ms)\<lparr>snap_Conditions :=
           DeleteCondition tys (snap_Conditions (ms_Snapshot ms))\<rparr>\<rparr>"

definition plan_Condition :: "string \<Rightarrow> string \<Rightarrow> Condition" where
  "plan_Condition ty message =
     \<lparr>cnd_Type = ty, cnd_Status = cnd_True, cnd_Category = Advisory, cnd_Reason = [],
      cnd_Message = message, cnd_Durable = True, cnd_LastTransitionTime = 0\<rparr>"

text \<open>
  The first loop of \<^verbatim>\<open>begin\<close>: each status has its reference resolved in place, and is
  kept when the plan still lists it. The result is the error, the statuses as the loop
  leaves them, and the kept ones.
\<close>

fun keepLoop ::
  "Migration \<Rightarrow> VM list \<Rightarrow> VMStatus list \<Rightarrow> go_error option \<times> VMStatus list \<times> VMStatus list" where
  "keepLoop r spec [] = (None, [], [])"
| "keepLoop r spec (status # rest) =
     (case r_InventoryVM r (vm_Ref status) of
        Inl err \<Rightarrow> (Some err, status # rest, [])
      | Inr ref \<Rightarrow>
          let status = status\<lparr>vm_Ref := ref\<rparr>
          in (case keepLoop r spec rest of
                (err, statuses, kept) \<Rightarrow>
                  (err, status # statuses,
                   if Spec_FindVM spec (vm_Ref status) \<noteq> None then status # kept else kept)))"

text \<open>
  The second loop. The statuses are shared objects: a status found in the kept list is
  reset in place, and the new list refers to it. The kept list is the store; an entry of
  the new list is a position in it (\<open>Inl\<close>) or a status created by this loop (\<open>Inr\<close>).
\<close>

definition newStatus :: "VM \<Rightarrow> VMStatus" where
  "newStatus vm =
     \<lparr>vm_Ref = vm_Ref vm, vm_Hooks = vm_Hooks vm, vm_Started = None, vm_Completed = None,
      vm_Pipeline = [], vm_Phase = [], vm_Error = None, vm_Warm = None,
      vm_Conditions = []\<rparr>"

definition resetStatus :: "Step list \<Rightarrow> string \<Rightarrow> VMStatus \<Rightarrow> VMStatus" where
  "resetStatus pipeline phase status =
     (MarkReset (status\<lparr>vm_Conditions := DeleteCondition [Canceled, Failed] (vm_Conditions status)\<rparr>))
       \<lparr>vm_Pipeline := pipeline, vm_Phase := phase, vm_Error := None, vm_Warm := None\<rparr>"

fun addLoop ::
  "Migration \<Rightarrow> VM list \<Rightarrow> VMStatus list \<Rightarrow> (nat + VMStatus) list \<Rightarrow>
     (go_error option \<times> VMStatus list \<times> (nat + VMStatus) list) option" where
  "addLoop r [] kept list = Some (None, kept, list)"
| "addLoop r (vm # vms) kept list =
     (let step = fst (itinerary_First vm);
          found = Status_FindVM kept (vm_Ref vm);
          status = (case found of None \<Rightarrow> newStatus vm | Some i \<Rightarrow> kept ! i)
      in if vm_Phase status \<noteq> Completed \<or> HasAnyCondition (vm_Conditions status) [Canceled, Failed]
         then
           (case buildPipeline r vm of
              None \<Rightarrow> None
            | Some (Inl pErr) \<Rightarrow> Some (Some pErr, kept, list)
            | Some (Inr pipeline) \<Rightarrow>
                let status = resetStatus pipeline (it_Name step) status
                in (case found of
                      None \<Rightarrow> addLoop r vms kept (list @ [Inr status])
                    | Some i \<Rightarrow> addLoop r vms (kept[i := status]) (list @ [Inl i])))
         else
           (case found of
              None \<Rightarrow> addLoop r vms kept (list @ [Inr status])
            | Some i \<Rightarrow> addLoop r vms kept (list @ [Inl i])))"

definition deref :: "VMStatus list \<Rightarrow> nat + VMStatus \<Rightarrow> VMStatus" where
  "deref kept x = (case x of Inl i \<Rightarrow> kept ! i | Inr status \<Rightarrow> status)"

definition Migration_begin :: "Migration \<Rightarrow> Plan \<Rightarrow> (go_error option \<times> Plan) option" where
  "Migration_begin r plan =
     (if HasAnyCondition (snap_Conditions (ms_Snapshot (p_Migration plan)))
           [Executing, Succeeded, Failed, Canceled]
      then Some (None, plan)
      else
        let ms = ms_MarkStarted (r_now r) (ms_MarkReset (p_Migration plan));
            ms = snap_SetCondition (plan_Condition Executing ''The plan is EXECUTING.'') ms
        in (case r_EnsureNamespace r of
              Some err \<Rightarrow> Some (Some err, plan\<lparr>p_Migration := ms\<rparr>)
            | None \<Rightarrow>
                (case keepLoop r (p_VMs plan) (ms_VMs ms) of
                   (Some err, statuses, kept) \<Rightarrow>
                     Some (Some err, plan\<lparr>p_Migration := ms\<lparr>ms_VMs := statuses\<rparr>\<rparr>)
                 | (None, statuses, kept) \<Rightarrow>
                     (case addLoop r (p_VMs plan) kept [] of
                        None \<Rightarrow> None
                      | Some (Some err, kept, list) \<Rightarrow>
                          Some (Some err, plan\<lparr>p_Migration := ms\<lparr>ms_VMs := kept\<rparr>\<rparr>)
                      | Some (None, kept, list) \<Rightarrow>
                          Some (None, plan\<lparr>p_Migration :=
                                  ms\<lparr>ms_VMs := map (deref kept) list\<rparr>\<rparr>)))))"

text \<open>\<^verbatim>\<open>Cancel\<close>: the loop over the statuses stops at the first import it cannot delete.\<close>

fun cancelLoop :: "Migration \<Rightarrow> VMStatus list \<Rightarrow> go_error option \<times> VMStatus list" where
  "cancelLoop r [] = (None, [])"
| "cancelLoop r (vm # vms) =
     (if HasAnyCondition (vm_Conditions vm) [Canceled, Failed] then
        (case r_DeleteImport r vm of
           Some err \<Rightarrow> (Some err, vm # vms)
         | None \<Rightarrow>
             let vm = MarkCompleted (r_now r) vm;
                 vm = vm\<lparr>vm_Pipeline :=
                        map (\<lambda>step. if t_MarkedStarted step
                                     then t_MarkCompleted (r_now r) step else step)
                            (vm_Pipeline vm)\<rparr>
             in (case cancelLoop r vms of (err, vms') \<Rightarrow> (err, vm # vms')))
      else (case cancelLoop r vms of (err, vms') \<Rightarrow> (err, vm # vms')))"

definition Migration_Cancel :: "Migration \<Rightarrow> Plan \<Rightarrow> go_error option \<times> Plan" where
  "Migration_Cancel r plan =
     (case r_init r of
        Some err \<Rightarrow> (Some err, plan)
      | None \<Rightarrow>
          (case cancelLoop r (ms_VMs (p_Migration plan)) of
             (err, vms) \<Rightarrow> (err, plan\<lparr>p_Migration := (p_Migration plan)\<lparr>ms_VMs := vms\<rparr>\<rparr>)))"

text \<open>
  The first loop of \<^verbatim>\<open>end\<close>: the counts of failed and succeeded VMs, or \<open>None\<close> when
  a VM is not marked completed and \<^verbatim>\<open>end\<close> returns at once.
\<close>

fun countLoop :: "VMStatus list \<Rightarrow> nat \<Rightarrow> nat \<Rightarrow> (nat \<times> nat) option" where
  "countLoop [] failed succeeded = Some (failed, succeeded)"
| "countLoop (vm # vms) failed succeeded =
     (if \<not> MarkedCompleted vm then None
      else countLoop vms
             (if HasCondition (vm_Conditions vm) Failed then failed + 1 else failed)
             (if HasCondition (vm_Conditions vm) Succeeded then succeeded + 1 else succeeded))"

definition Migration_end :: "Migration \<Rightarrow> Plan \<Rightarrow> bool \<times> go_error option \<times> Plan" where
  "Migration_end r plan =
     (case countLoop (ms_VMs (p_Migration plan)) 0 0 of
        None \<Rightarrow> (False, None, plan)
      | Some (failed, succeeded) \<Rightarrow>
          let ms = ms_MarkCompleted (r_now r) (p_Migration plan);
              ms = snap_DeleteCondition [Executing] ms
          in if failed > 0 then
               (let ms = snap_SetCondition
                           (plan_Condition Failed ''The plan execution has FAILED.'') ms
                in (case Migration_Cancel r (plan\<lparr>p_Migration := ms\<rparr>) of
                      (err, plan) \<Rightarrow> (True, err, plan)))
             else if succeeded > 0 then
               (True, None, plan\<lparr>p_Migration := snap_SetCondition
                  (plan_Condition Succeeded ''The plan execution has SUCCEEDED.'') ms\<rparr>)
             else
               (True, None, plan\<lparr>p_Migration := snap_SetCondition
                  (plan_Condition Canceled ''The plan execution has been CANCELED.'') ms\<rparr>))"

section \<open>Samples and the notions of the theorems\<close>

text \<open>
  Modelled from the spec: the two reflections of the pipeline model, used as the
  collaborators of the sample reconcile below. \<open>ReflectPipeline\<close> appends the errors of
  the steps to the VM's and marks the VM started when a step is and completed when every
  step is; \<open>ReflectTasks\<close> does the same for a step and its tasks, whose completed
  progress it sums.
\<close>

definition ReflectPipeline :: "time \<Rightarrow> VMStatus \<Rightarrow> VMStatus" where
  "ReflectPipeline now vm =
     (let vm = fold (\<lambda>step vm. case t_Error step of
                                  None \<Rightarrow> vm
                                | Some e \<Rightarrow> AddError (err_Reasons e) vm) (vm_Pipeline vm) vm;
          vm = (if list_ex t_MarkedStarted (vm_Pipeline vm) then MarkStarted now vm else vm)
      in if list_all t_MarkedCompleted (vm_Pipeline vm) then MarkCompleted now vm else vm)"

definition ReflectTasks :: "time \<Rightarrow> Step \<Rightarrow> Step" where
  "ReflectTasks now s =
     (if s_Tasks s = [] then s
      else
        let s = s\<lparr>t_Completed_Progress := sum_list (map t_Completed_Progress (s_Tasks s))\<rparr>;
            s = fold (\<lambda>task s. case t_Error task of
                                        None \<Rightarrow> s
                                      | Some e \<Rightarrow> s_AddError (err_Reasons e) s) (s_Tasks s) s;
            s = (if list_ex t_MarkedStarted (s_Tasks s) then t_MarkStarted now s else s)
        in if list_all t_MarkedCompleted (s_Tasks s) then t_MarkCompleted now s else s)"

text \<open>
  A reconcile of a vSphere plan in which every collaborator succeeds and does nothing,
  and a VM of that plan with its status.
\<close>

definition ex_Migration :: Migration where
  "ex_Migration =
     \<lparr>r_now = 7, r_Cancel = [], r_ProviderType = VSphere,
      r_HookRunner_Run = (\<lambda>vm. (None, vm)),
      r_EnsureImport = (\<lambda>vm. None),
      r_ImportMap = Inr (\<lambda>id. None),
      r_Tasks = (\<lambda>ref. Inr []),
      r_ResolveDataVolumeIdentifier = (\<lambda>dv. dv),
      r_ReflectPipeline = ReflectPipeline 7,
      r_ReflectTasks = ReflectTasks 7,
      r_InventoryVM = (\<lambda>ref. Inr ref),
      r_EnsureNamespace = None,
      r_DeleteImport = (\<lambda>vm. None),
      r_init = None\<rparr>"

definition ex_VM :: VM where
  "ex_VM = \<lparr>vm_Ref = \<lparr>pr_ID = ''vm-1'', pr_Name = ''db''\<rparr>, vm_Hooks = []\<rparr>"

definition ex_Status :: "string \<Rightarrow> VMStatus" where
  "ex_Status phase =
     \<lparr>vm_Ref = vm_Ref ex_VM, vm_Hooks = [], vm_Started = Some 1, vm_Completed = None,
      vm_Pipeline = [hookStep ImageConversion ''Convert image to kubevirt.''],
      vm_Phase = phase, vm_Error = None, vm_Warm = None, vm_Conditions = []\<rparr>"

text \<open>
  The reflection of the pipeline is a collaborator. \<open>keeps_errors\<close> says of one that it
  only appends to a VM's error list: an error list that is there stays, with its reasons.
\<close>

definition keeps_errors :: "(VMStatus \<Rightarrow> VMStatus) \<Rightarrow> bool" where
  "keeps_errors f =
     (\<forall>vm e. vm_Error vm = Some e \<longrightarrow>
        (\<exists>e'. vm_Error (f vm) = Some e' \<and> set (err_Reasons e) \<subseteq> set (err_Reasons e')))"

text \<open>The sample reconcile with an import that cannot be ensured.\<close>

definition ex_Failing :: Migration where
  "ex_Failing = ex_Migration\<lparr>r_EnsureImport := (\<lambda>vm. Some (OtherError ''boom''))\<rparr>"

text \<open>
  For the warm substate: the pre-copy intervals of a VM status (none before the first
  call of \<^verbatim>\<open>updateWarmStatus\<close>), an interval that is open, a sequence of calls of
  \<^verbatim>\<open>updateWarmStatus\<close> on the imports observed one after the other, and an observed warm
  import whose \<^verbatim>\<open>Processing\<close> condition has the given reason and transition time.
\<close>

definition Precopies :: "VMStatus \<Rightarrow> Precopy list" where
  "Precopies vm = (case vm_Warm vm of None \<Rightarrow> [] | Some w \<Rightarrow> w_Precopies w)"

definition is_open :: "Precopy \<Rightarrow> bool" where
  "is_open p = (pc_End p = None)"

definition warmCalls :: "VmImport list \<Rightarrow> VMStatus \<Rightarrow> VMStatus" where
  "warmCalls imps vm = fold (\<lambda>imp vm. updateWarmStatus vm imp) imps vm"

definition ex_Processing :: "string \<Rightarrow> time \<Rightarrow> VmImport" where
  "ex_Processing reason t =
     \<lparr>imp_Warm = True, imp_Successes = 0, imp_Failures = 0, imp_ConsecutiveFailures = 0,
      imp_NextStageTime = None,
      imp_Conditions = [\<lparr>cnd_Type = Processing, cnd_Status = cnd_True, cnd_Category = [],
                         cnd_Reason = reason, cnd_Message = [], cnd_Durable = False,
                         cnd_LastTransitionTime = t\<rparr>],
      imp_DataVolumes = [], imp_Progress = (\<lambda>total. 0)\<rparr>"

text \<open>
  The outcome \<^verbatim>\<open>end\<close> stamps on the snapshot, as the specification words it: failed if
  a VM has failed, else succeeded if one has succeeded, else canceled. Below it, a VM
  status that is completed with one condition, and a plan of the sample VM with the
  given statuses and an executing snapshot.
\<close>

definition outcome :: "VMStatus list \<Rightarrow> Condition" where
  "outcome vms =
     (if list_ex (\<lambda>vm. HasCondition (vm_Conditions vm) Failed) vms
      then plan_Condition Failed ''The plan execution has FAILED.''
      else if list_ex (\<lambda>vm. HasCondition (vm_Conditions vm) Succeeded) vms
      then plan_Condition Succeeded ''The plan execution has SUCCEEDED.''
      else plan_Condition Canceled ''The plan execution has been CANCELED.'')"

definition ex_Done :: "string \<Rightarrow> VMStatus" where
  "ex_Done ty =
     (ex_Status Completed)\<lparr>vm_Completed := Some 5,
        vm_Conditions := [plan_Condition ty ''The VM migration is over.'']\<rparr>"

definition ex_Plan :: "VMStatus list \<Rightarrow> Plan" where
  "ex_Plan vms =
     \<lparr>p_VMs = [ex_VM],
      p_Migration = \<lparr>ms_Started = Some 1, ms_Completed = None, ms_VMs = vms,
                     ms_Snapshot = \<lparr>snap_Conditions =
                       [plan_Condition Executing ''The plan is EXECUTING.'']\<rparr>\<rparr>\<rparr>"







definition ex_Import :: "DataVolume list \<Rightarrow> VmImport" where
  "ex_Import dvs =
     \<lparr>imp_Warm = False, imp_Successes = 0, imp_Failures = 0, imp_ConsecutiveFailures = 0,
      imp_NextStageTime = None, imp_Conditions = [], imp_DataVolumes = dvs,
      imp_Progress = (\<lambda>total. 0)\<rparr>"

text \<open>
  Three plans of the sample VM: one never begun, the reconcile in which the namespace
  cannot be ensured, and the plan that reconcile leaves behind.
\<close>

definition ex_Fresh :: Plan where
  "ex_Fresh =
     \<lparr>p_VMs = [ex_VM],
      p_Migration = \<lparr>ms_Started = None, ms_Completed = None, ms_VMs = [],
                     ms_Snapshot = \<lparr>snap_Conditions = []\<rparr>\<rparr>\<rparr>"

definition ex_NoNamespace :: Migration where
  "ex_NoNamespace = ex_Migration\<lparr>r_EnsureNamespace := Some (OtherError ''forbidden'')\<rparr>"

definition ex_Stuck :: Plan where
  "ex_Stuck =
     \<lparr>p_VMs = [ex_VM],
      p_Migration = \<lparr>ms_Started = Some 7, ms_Completed = None, ms_VMs = [],
                     ms_Snapshot = \<lparr>snap_Conditions =
                       [plan_Condition Executing ''The plan is EXECUTING.'']\<rparr>\<rparr>\<rparr>"

text \<open>
  The pipeline \<^verbatim>\<open>buildPipeline\<close> is to build from the tasks of the builder: the hook
  steps when the VM has the hooks, the disk transfer, and the image conversion for a
  vSphere source. \<open>ex_Begun\<close> is the sample VM's status as \<^verbatim>\<open>begin\<close> creates it.
\<close>

definition diskStep :: "Task list \<Rightarrow> Step" where
  "diskStep tasks =
     \<lparr>t_Name = DiskTransfer, t_Description = ''Transfer disks.'', t_Phase = [],
      t_Reason = [], t_Total = fold (\<lambda>task total. total + t_Total task) tasks 0,
      t_Completed_Progress = 0, t_Annotations = [(''unit'', ''MB'')], t_Error = None,
      t_Started = None, t_Completed = None, s_Tasks = tasks\<rparr>"

definition pipelineOf :: "Migration \<Rightarrow> VM \<Rightarrow> Task list \<Rightarrow> Step list" where
  "pipelineOf r vm tasks =
     (if Evaluate vm HasPreHook then [hookStep PreHook ''Run pre-migration hook.''] else []) @
     [diskStep tasks] @
     (if r_ProviderType r = VSphere
      then [hookStep ImageConversion ''Convert image to kubevirt.''] else []) @
     (if Evaluate vm HasPostHook then [hookStep PostHook ''Run post-migration hook.''] else [])"

definition ex_Begun :: VMStatus where
  "ex_Begun =
     \<lparr>vm_Ref = vm_Ref ex_VM, vm_Hooks = [], vm_Started = None, vm_Completed = None,
      vm_Pipeline = [diskStep [], hookStep ImageConversion ''Convert image to kubevirt.''],
      vm_Phase = Started, vm_Error = None, vm_Warm = None, vm_Conditions = []\<rparr>"

text \<open>
  A run of the sample VM over two executions of its plan: the import as observed when
  the conversion has succeeded, the reconcile that observes it, the reconcile in which
  the user has canceled the VM, the VM's status once it has succeeded, the plan of the
  next execution (a new active snapshot over the statuses of the last), and the status
  \<^verbatim>\<open>begin\<close> then makes of the VM.
\<close>

definition ex_Converted :: VmImport where
  "ex_Converted =
     (ex_Import [])\<lparr>imp_Conditions :=
        [plan_Condition Succeeded ''The import has succeeded.'']\<rparr>"

definition ex_Imported :: Migration where
  "ex_Imported =
     ex_Migration\<lparr>r_ImportMap :=
        Inr (\<lambda>id. if id = pr_ID (vm_Ref ex_VM) then Some ex_Converted else None)\<rparr>"

definition ex_Canceling :: Migration where
  "ex_Canceling = ex_Migration\<lparr>r_Cancel := [vm_Ref ex_VM]\<rparr>"

definition ex_Succeeded :: VMStatus where
  "ex_Succeeded =
     ex_Begun\<lparr>vm_Started := Some 7,
       vm_Pipeline :=
         [(diskStep [])\<lparr>t_Phase := Completed\<rparr>,
          (hookStep ImageConversion ''Convert image to kubevirt.'')
            \<lparr>t_Phase := Completed, t_Completed_Progress := 1, t_Completed := Some 7\<rparr>],
       vm_Phase := Completed, vm_Conditions := [cnd_Succeeded]\<rparr>"

definition ex_Restarted :: VMStatus where
  "ex_Restarted = ex_Begun\<lparr>vm_Conditions := [cnd_Succeeded]\<rparr>"

definition ex_Again :: Plan where
  "ex_Again =
     ex_Fresh\<lparr>p_Migration := (p_Migration ex_Fresh)
       \<lparr>ms_VMs := [ex_Succeeded\<lparr>vm_Conditions := [cnd_Succeeded, cnd_Canceled]\<rparr>]\<rparr>\<rparr>"

text \<open>
  The outcome conditions of a VM status are in order when \<^verbatim>\<open>Succeeded\<close> comes with
  phase \<^verbatim>\<open>Completed\<close> and no error on the VM or its steps, and \<^verbatim>\<open>Failed\<close> comes with
  phase \<^verbatim>\<open>Completed\<close> and an error. Of the collaborators this needs that the reflection
  of the pipeline touches neither conditions nor phase nor steps and leaves the VM
  without error exactly when the VM and its steps had none, and that the hook runner
  leaves the conditions alone. \<open>one_execution\<close> holds of the statuses of one execution
  of a plan: those \<^verbatim>\<open>begin\<close> creates, and those \<^verbatim>\<open>step\<close> and \<^verbatim>\<open>Cancel\<close> make of them.
\<close>

definition outcome_ok :: "VMStatus \<Rightarrow> bool" where
  "outcome_ok vm =
     ((HasCondition (vm_Conditions vm) Succeeded \<longrightarrow>
         vm_Phase vm = Completed \<and> vm_Error vm = None \<and>
         list_all (\<lambda>s. t_Error s = None) (vm_Pipeline vm)) \<and>
      (HasCondition (vm_Conditions vm) Failed \<longrightarrow>
         vm_Phase vm = Completed \<and> vm_Error vm \<noteq> None))"

definition reflects_errors :: "(VMStatus \<Rightarrow> VMStatus) \<Rightarrow> bool" where
  "reflects_errors f =
     (\<forall>vm. vm_Conditions (f vm) = vm_Conditions vm \<and> vm_Phase (f vm) = vm_Phase vm \<and>
           vm_Pipeline (f vm) = vm_Pipeline vm \<and>
           (vm_Error (f vm) = None \<longleftrightarrow>
              vm_Error vm = None \<and> list_all (\<lambda>s. t_Error s = None) (vm_Pipeline vm)))"

definition keeps_conditions :: "(VMStatus \<Rightarrow> go_error option \<times> VMStatus) \<Rightarrow> bool" where
  "keeps_conditions f = (\<forall>vm. vm_Conditions (snd (f vm)) = vm_Conditions vm)"

inductive one_execution :: "VMStatus \<Rightarrow> bool" where
  created: "one_execution (resetStatus pipeline phase (newStatus vm))"
| stepped: "one_execution vm \<Longrightarrow> reflects_errors (r_ReflectPipeline r) \<Longrightarrow>
            keeps_conditions (r_HookRunner_Run r) \<Longrightarrow> one_execution (snd (step r vm))"
| canceled: "one_execution vm \<Longrightarrow> cancelLoop r [vm] = (err, [vm']) \<Longrightarrow> one_execution vm'"

section \<open>Theorems\<close>

text \<open>
  C10. For every cluster model \<open>m\<close>, the resource built by \<^verbatim>\<open>Cluster.With(m)\<close> has its
  \<^verbatim>\<open>DrsVms\<close> field equal to \<^verbatim>\<open>m.DasVms\<close> (not \<^verbatim>\<open>m.DrsVms\<close>), and the model's
  \<^verbatim>\<open>DrsVms\<close> field has no influence on the resource: replacing it by any other list
  gives the identical resource.
\<close>

theorem Cluster_With_DrsVms:
  "wc_DrsVms (Cluster_With rw r m) = mc_DasVms m \<and>
   Cluster_With rw r (m\<lparr>mc_DrsVms := vms\<rparr>) = Cluster_With rw r m"
  by (simp add: Cluster_With_def)

subsection \<open>Conditions\<close>

lemma find_map_replace:
  "find (\<lambda>d. cnd_Type d = ty) (map (\<lambda>d. if cnd_Type d = cnd_Type c then c else d) cs) =
     (if ty = cnd_Type c then (if list_ex (\<lambda>d. cnd_Type d = cnd_Type c) cs then Some c else None)
      else find (\<lambda>d. cnd_Type d = ty) cs)"
  by (induction cs) (auto simp: list_ex_iff)

lemma find_append_last:
  "find P (cs @ [c]) = (case find P cs of Some d \<Rightarrow> Some d | None \<Rightarrow> if P c then Some c else None)"
  by (induction cs) auto

lemma find_None_list_ex: "find P cs = None \<longleftrightarrow> \<not> list_ex P cs"
  by (induction cs) auto

lemma FindCondition_SetCondition:
  "FindCondition (SetCondition c cs) ty =
     (if ty = cnd_Type c then Some c else FindCondition cs ty)"
proof (cases "list_ex (\<lambda>d. cnd_Type d = cnd_Type c) cs")
  case True
  then show ?thesis
    by (simp add: FindCondition_def SetCondition_def find_map_replace)
next
  case False
  then have "find (\<lambda>d. cnd_Type d = cnd_Type c) cs = None"
    by (simp add: find_None_list_ex)
  with False show ?thesis
    by (auto simp: FindCondition_def SetCondition_def find_append_last split: option.splits)
qed

lemma HasCondition_SetCondition:
  "HasCondition (SetCondition c cs) ty =
     (if ty = cnd_Type c then cnd_Status c = cnd_True else HasCondition cs ty)"
  by (simp add: HasCondition_def FindCondition_SetCondition)

subsection \<open>\<^verbatim>\<open>step\<close>: cancellation\<close>

text \<open>
  C6. For every VM whose reference is in the migration's cancel set, \<^verbatim>\<open>step\<close> returns
  no error and leaves the status as it was but for two fields: the conditions, where the
  durable \<^verbatim>\<open>Canceled\<close> condition is set, and the phase, which is \<^verbatim>\<open>Completed\<close>. No
  error is appended, the pipeline is not modified, and \<^verbatim>\<open>Succeeded\<close> and \<^verbatim>\<open>Failed\<close> are
  present afterwards exactly when they were before.
\<close>

theorem step_canceled:
  assumes "Spec_Canceled (r_Cancel r) (vm_Ref vm)"
  shows "step r vm =
           (None, vm\<lparr>vm_Conditions := SetCondition cnd_Canceled (vm_Conditions vm),
                     vm_Phase := Completed\<rparr>) \<and>
         FindCondition (vm_Conditions (snd (step r vm))) Canceled = Some cnd_Canceled \<and>
         cnd_Durable cnd_Canceled \<and>
         vm_Phase (snd (step r vm)) = Completed \<and>
         vm_Error (snd (step r vm)) = vm_Error vm \<and>
         vm_Pipeline (snd (step r vm)) = vm_Pipeline vm \<and>
         HasCondition (vm_Conditions (snd (step r vm))) Succeeded =
           HasCondition (vm_Conditions vm) Succeeded \<and>
         HasCondition (vm_Conditions (snd (step r vm))) Failed =
           HasCondition (vm_Conditions vm) Failed"
  using assms
  by (simp add: step_def vm_SetCondition_def FindCondition_SetCondition
      HasCondition_SetCondition cnd_Canceled_def)

theorem step_canceled_witness:
  "Spec_Canceled (r_Cancel (ex_Migration\<lparr>r_Cancel := [vm_Ref ex_VM]\<rparr>)) (vm_Ref (ex_Status ImportCreated)) \<and>
   step (ex_Migration\<lparr>r_Cancel := [vm_Ref ex_VM]\<rparr>) (ex_Status ImportCreated) =
     (None, (ex_Status Completed)\<lparr>vm_Conditions := [cnd_Canceled]\<rparr>)"
proof -
  have h: "Spec_Canceled (r_Cancel (ex_Migration\<lparr>r_Cancel := [vm_Ref ex_VM]\<rparr>))
             (vm_Ref (ex_Status ImportCreated))"
    by (simp add: Spec_Canceled_def ex_Status_def)
  from step_canceled [OF h] show ?thesis
    using h by (simp add: ex_Status_def SetCondition_def)
qed

subsection \<open>\<^verbatim>\<open>step\<close>: a failing import\<close>

lemma Error_Add_keeps:
  "e = Some x \<Longrightarrow> \<exists>x'. Error_Add phase reasons e = Some x' \<and>
     set (err_Reasons x) \<subseteq> set (err_Reasons x') \<and> set reasons \<subseteq> set (err_Reasons x')"
  by (simp add: Error_Add_def)

lemma Error_Add_Some:
  "\<exists>x'. Error_Add phase reasons e = Some x' \<and> set reasons \<subseteq> set (err_Reasons x')"
  by (cases e) (simp_all add: Error_Add_def)

lemma fold_AddError_keeps:
  "vm_Error vm = Some e \<Longrightarrow>
   \<exists>e'. vm_Error (fold (\<lambda>step vm. case t_Error step of None \<Rightarrow> vm
                                   | Some x \<Rightarrow> AddError (err_Reasons x) vm) steps vm) = Some e' \<and>
        set (err_Reasons e) \<subseteq> set (err_Reasons e')"
proof (induction steps arbitrary: vm e)
  case Nil
  then show ?case by simp
next
  case (Cons s steps)
  show ?case
  proof (cases "t_Error s")
    case None
    with Cons show ?thesis by simp
  next
    case (Some x)
    let ?vm = "AddError (err_Reasons x) vm"
    from Cons.prems obtain e1 where e1: "vm_Error ?vm = Some e1"
      and sub: "set (err_Reasons e) \<subseteq> set (err_Reasons e1)"
      by (auto simp: AddError_def Error_Add_def)
    from Cons.IH [OF e1] sub Some show ?thesis by auto
  qed
qed

lemma fold_AddError_pipeline:
  "vm_Pipeline (fold (\<lambda>step vm. case t_Error step of None \<Rightarrow> vm
                                   | Some x \<Rightarrow> AddError (err_Reasons x) vm) steps vm) = vm_Pipeline vm"
  by (induction steps arbitrary: vm) (auto simp: AddError_def split: option.splits)

lemma keeps_errors_ReflectPipeline: "keeps_errors (ReflectPipeline now)"
  unfolding keeps_errors_def
proof (intro allI impI)
  fix vm :: VMStatus and e
  assume "vm_Error vm = Some e"
  from fold_AddError_keeps [OF this, of "vm_Pipeline vm"]
  show "\<exists>e'. vm_Error (ReflectPipeline now vm) = Some e' \<and>
              set (err_Reasons e) \<subseteq> set (err_Reasons e')"
    by (auto simp: ReflectPipeline_def Let_def MarkStarted_def MarkCompleted_def)
qed

lemma stepStamp_failed:
  "vm_Error vm \<noteq> None \<Longrightarrow>
   stepStamp vm = vm_SetCondition cnd_Failed (vm\<lparr>vm_Phase := Completed\<rparr>)"
  by (auto simp: stepStamp_def)

text \<open>
  C1, as the code has it. For every VM that is not canceled and whose phase is
  \<^verbatim>\<open>CreateImport\<close> or \<^verbatim>\<open>ImportCreated\<close>, when \<^verbatim>\<open>EnsureImport\<close> fails with an error
  that is not \<^verbatim>\<open>ProviderNotReady\<close>, \<^verbatim>\<open>step\<close> returns no error and records the error's
  message on the VM's error list; the code after the switch then finds the error list
  non-empty, so in that same call the phase is set to \<^verbatim>\<open>Completed\<close> and the VM acquires
  the \<^verbatim>\<open>Failed\<close> condition (the reflection of the pipeline keeping the errors recorded).
\<close>

theorem step_EnsureImport_failed:
  assumes phase: "vm_Phase vm = CreateImport \<or> vm_Phase vm = ImportCreated"
    and live: "\<not> Spec_Canceled (r_Cancel r) (vm_Ref vm)"
    and failed: "r_EnsureImport r vm = Some err"
    and other: "\<not> As_ProviderNotReadyError err"
    and keeps: "keeps_errors (r_ReflectPipeline r)"
  shows "fst (step r vm) = None \<and>
         (\<exists>e. vm_Error (snd (step r vm)) = Some e \<and> Error_msg err \<in> set (err_Reasons e)) \<and>
         vm_Phase (snd (step r vm)) = Completed \<and>
         HasCondition (vm_Conditions (snd (step r vm))) Failed"
proof -
  let ?vm1 = "AddError [Error_msg err] vm"
  let ?vm2 = "r_ReflectPipeline r ?vm1"
  have sw: "stepSwitch r vm = (None, ?vm1)"
    using phase failed other by (auto simp: stepSwitch_def)
  obtain e1 where e1: "vm_Error ?vm1 = Some e1" and in1: "Error_msg err \<in> set (err_Reasons e1)"
    using Error_Add_Some [of "vm_Phase vm" "[Error_msg err]" "vm_Error vm"]
    by (auto simp: AddError_def)
  from keeps e1 obtain e2 where e2: "vm_Error ?vm2 = Some e2"
    and sub: "set (err_Reasons e1) \<subseteq> set (err_Reasons e2)"
    unfolding keeps_errors_def by blast
  have st: "step r vm = (None, vm_SetCondition cnd_Failed (?vm2\<lparr>vm_Phase := Completed\<rparr>))"
    using live sw e2 by (simp add: step_def stepStamp_failed)
  show ?thesis
    using e2 in1 sub
    by (auto simp: st vm_SetCondition_def HasCondition_SetCondition cnd_Failed_def)
qed

lemmas ex_simps = ex_Migration_def ex_Status_def ex_VM_def hookStep_def ReflectPipeline_def
  MarkStarted_def MarkCompleted_def t_MarkedStarted_def t_MarkedCompleted_def AddError_def
  Error_Add_def vm_SetCondition_def SetCondition_def Spec_Canceled_def

text \<open>
  The claim that such a VM does not become terminal fails on the sample VM in phase
  \<^verbatim>\<open>CreateImport\<close>: the call leaves it in phase \<^verbatim>\<open>Completed\<close> with the \<^verbatim>\<open>Failed\<close>
  condition.
\<close>

theorem step_EnsureImport_failed_counterexample:
  "vm_Phase (ex_Status CreateImport) = CreateImport \<and>
   \<not> Spec_Canceled (r_Cancel ex_Failing) (vm_Ref (ex_Status CreateImport)) \<and>
   r_EnsureImport ex_Failing (ex_Status CreateImport) = Some (OtherError ''boom'') \<and>
   \<not> As_ProviderNotReadyError (OtherError ''boom'') \<and>
   step ex_Failing (ex_Status CreateImport) =
     (None, (ex_Status Completed)
              \<lparr>vm_Error := Some \<lparr>err_Phase = CreateImport, err_Reasons = [''boom'']\<rparr>,
               vm_Conditions := [cnd_Failed]\<rparr>)"
  by (simp add: ex_Failing_def step_def stepSwitch_def stepStamp_def ex_simps)

theorem step_EnsureImport_failed_witness:
  "(vm_Phase (ex_Status ImportCreated) = CreateImport \<or>
      vm_Phase (ex_Status ImportCreated) = ImportCreated) \<and>
   \<not> Spec_Canceled (r_Cancel ex_Failing) (vm_Ref (ex_Status ImportCreated)) \<and>
   r_EnsureImport ex_Failing (ex_Status ImportCreated) = Some (OtherError ''boom'') \<and>
   keeps_errors (r_ReflectPipeline ex_Failing) \<and>
   fst (step ex_Failing (ex_Status ImportCreated)) = None \<and>
   vm_Phase (snd (step ex_Failing (ex_Status ImportCreated))) = Completed \<and>
   HasCondition (vm_Conditions (snd (step ex_Failing (ex_Status ImportCreated)))) Failed"
proof -
  have a: "vm_Phase (ex_Status ImportCreated) = CreateImport \<or>
      vm_Phase (ex_Status ImportCreated) = ImportCreated"
    by (simp add: ex_Status_def)
  have b: "\<not> Spec_Canceled (r_Cancel ex_Failing) (vm_Ref (ex_Status ImportCreated))"
    by (simp add: ex_Failing_def ex_simps)
  have c: "r_EnsureImport ex_Failing (ex_Status ImportCreated) = Some (OtherError ''boom'')"
    by (simp add: ex_Failing_def ex_Migration_def)
  have d: "\<not> As_ProviderNotReadyError (OtherError ''boom'')" by simp
  have e: "keeps_errors (r_ReflectPipeline ex_Failing)"
    by (simp add: ex_Failing_def ex_Migration_def keeps_errors_ReflectPipeline)
  from step_EnsureImport_failed [OF a b c d e] a b c e show ?thesis by blast
qed

subsection \<open>\<^verbatim>\<open>step\<close>: an unknown phase\<close>

text \<open>
  C2. A VM whose phase is not a name of the itinerary, here \<^verbatim>\<open>Bogus\<close>, is set to phase
  \<^verbatim>\<open>Completed\<close> and gets an "unknown phase" error. The phase is overwritten before the
  message is formatted, so the message names \<^verbatim>\<open>Completed\<close> and not the phase the VM
  had.
\<close>

theorem step_unknown_phase_message:
  "step ex_Migration (ex_Status ''Bogus'') =
     (None, (ex_Status Completed)
              \<lparr>vm_Error := Some \<lparr>err_Phase = Completed,
                                 err_Reasons = [''Phase [Completed] unknown'']\<rparr>,
               vm_Conditions := [cnd_Failed]\<rparr>)"
  by (simp add: step_def stepSwitch_def stepStamp_def ex_simps)

subsection \<open>\<^verbatim>\<open>step\<close>: a hook phase without its step\<close>

text \<open>
  C9. For every VM that is not canceled and is in phase \<^verbatim>\<open>PreHook\<close> or \<^verbatim>\<open>PostHook\<close>,
  when the hook runner returns no error and the pipeline it leaves has no step named by
  the phase, the switch sets the phase to \<^verbatim>\<open>Completed\<close> and appends no error: the error
  list is the one the runner left. \<^verbatim>\<open>step\<close> then reflects the pipeline and stamps the
  outcome, and the VM is marked \<^verbatim>\<open>Succeeded\<close> if its error list is still empty.
\<close>

theorem step_hook_without_step:
  assumes phase: "vm_Phase vm = PreHook \<or> vm_Phase vm = PostHook"
    and live: "\<not> Spec_Canceled (r_Cancel r) (vm_Ref vm)"
    and run: "r_HookRunner_Run r vm = (None, vm1)"
    and nostep: "FindStep vm1 (vm_Phase vm1) = None"
  shows "stepSwitch r vm = (None, vm1\<lparr>vm_Phase := Completed\<rparr>) \<and>
         vm_Error (snd (stepSwitch r vm)) = vm_Error vm1 \<and>
         step r vm = (None, stepStamp (r_ReflectPipeline r (vm1\<lparr>vm_Phase := Completed\<rparr>))) \<and>
         (vm_Phase (r_ReflectPipeline r (vm1\<lparr>vm_Phase := Completed\<rparr>)) = Completed \<and>
          vm_Error (r_ReflectPipeline r (vm1\<lparr>vm_Phase := Completed\<rparr>)) = None \<longrightarrow>
            HasCondition (vm_Conditions (snd (step r vm))) Succeeded)"
proof -
  have sw: "stepSwitch r vm = (None, vm1\<lparr>vm_Phase := Completed\<rparr>)"
    using phase run nostep by (auto simp: stepSwitch_def)
  then show ?thesis
    using live
    by (simp add: step_def stepStamp_def vm_SetCondition_def HasCondition_SetCondition
        cnd_Succeeded_def)
qed

theorem step_hook_without_step_witness:
  "vm_Phase (ex_Status PreHook) = PreHook \<and>
   r_HookRunner_Run ex_Migration (ex_Status PreHook) = (None, ex_Status PreHook) \<and>
   FindStep (ex_Status PreHook) PreHook = None \<and>
   step ex_Migration (ex_Status PreHook) =
     (None, (ex_Status Completed)\<lparr>vm_Conditions := [cnd_Succeeded]\<rparr>) \<and>
   HasCondition (vm_Conditions (snd (step ex_Migration (ex_Status PreHook)))) Succeeded"
proof -
  have a: "vm_Phase (ex_Status PreHook) = PreHook \<or> vm_Phase (ex_Status PreHook) = PostHook"
    by (simp add: ex_Status_def)
  have b: "\<not> Spec_Canceled (r_Cancel ex_Migration) (vm_Ref (ex_Status PreHook))"
    by (simp add: ex_simps)
  have c: "r_HookRunner_Run ex_Migration (ex_Status PreHook) = (None, ex_Status PreHook)"
    by (simp add: ex_Migration_def)
  have d: "FindStep (ex_Status PreHook) (vm_Phase (ex_Status PreHook)) = None"
    by (simp add: FindStep_def ex_Status_def hookStep_def)
  have r: "r_ReflectPipeline ex_Migration ((ex_Status PreHook)\<lparr>vm_Phase := Completed\<rparr>) =
             ex_Status Completed"
    by (simp add: ex_simps)
  have s: "stepStamp (ex_Status Completed) = (ex_Status Completed)\<lparr>vm_Conditions := [cnd_Succeeded]\<rparr>"
    by (simp add: stepStamp_def ex_simps)
  from step_hook_without_step [OF a b c d] show ?thesis
    using d by (simp add: r s) (simp add: ex_Status_def ex_Migration_def HasCondition_def
        FindCondition_def cnd_Succeeded_def)
qed

subsection \<open>\<^verbatim>\<open>updateWarmStatus\<close>: the pre-copy intervals\<close>

lemma Precopies_updateWarmStatus:
  "Precopies (updateWarmStatus vm imp) =
     updatePrecopies (FindCondition (imp_Conditions imp) Processing) (Precopies vm)"
  by (simp add: Precopies_def updateWarmStatus_def Let_def split: option.splits)

lemma list_update_last: "ps \<noteq> [] \<Longrightarrow> ps[length ps - Suc 0 := y] = butlast ps @ [y]"
  by (induction ps rule: rev_induct) simp_all

lemma nth_last: "ps \<noteq> [] \<Longrightarrow> ps ! (length ps - Suc 0) = last ps"
  by (simp add: last_conv_nth)

lemma updatePrecopies_cases:
  "updatePrecopies cnd ps =
     (case cnd of
        None \<Rightarrow> ps
      | Some c \<Rightarrow>
          if cnd_Reason c = CopyingStage then
            (if ps = [] \<or> \<not> is_open (last ps)
             then ps @ [\<lparr>pc_Start = Some (cnd_LastTransitionTime c), pc_End = None\<rparr>] else ps)
          else if cnd_Reason c = CopyingPaused then
            (if ps \<noteq> [] \<and> is_open (last ps)
             then butlast ps @ [(last ps)\<lparr>pc_End := Some (cnd_LastTransitionTime c)\<rparr>] else ps)
          else ps)"
  by (cases "ps = []")
    (auto simp: updatePrecopies_def is_open_def nth_last list_update_last split: option.splits)

lemma closed_butlast_update:
  assumes "list_all (\<lambda>p. \<not> is_open p) (butlast ps)"
  shows "list_all (\<lambda>p. \<not> is_open p) (butlast (updatePrecopies cnd ps))"
proof (cases "ps = []")
  case True
  then show ?thesis by (auto simp: updatePrecopies_cases split: option.splits)
next
  case False
  then have ps: "ps = butlast ps @ [last ps]" by simp
  have "\<not> is_open (last ps) \<Longrightarrow> list_all (\<lambda>p. \<not> is_open p) ps"
    using assms by (subst ps) simp
  with assms False show ?thesis
    by (auto simp: updatePrecopies_cases butlast_append split: option.splits)
qed

lemma closed_butlast_open_le_1:
  assumes "list_all (\<lambda>p. \<not> is_open p) (butlast ps)"
  shows "length (filter is_open ps) \<le> 1"
proof (cases "ps = []")
  case True
  then show ?thesis by simp
next
  case False
  then have ps: "ps = butlast ps @ [last ps]" by simp
  have "filter is_open (butlast ps) = []"
    using assms by (simp add: list_all_iff filter_empty_conv)
  then show ?thesis by (subst ps) (simp del: append_butlast_last_id)
qed

lemma closed_butlast_warmCalls:
  "list_all (\<lambda>p. \<not> is_open p) (butlast (Precopies vm)) \<Longrightarrow>
   list_all (\<lambda>p. \<not> is_open p) (butlast (Precopies (warmCalls imps vm)))"
  unfolding warmCalls_def
  by (induction imps arbitrary: vm) (simp_all add: Precopies_updateWarmStatus closed_butlast_update)

text \<open>
  C8. Across any sequence of calls of \<^verbatim>\<open>updateWarmStatus\<close>, from a status with no warm
  substate yet (or from one whose intervals before the last are all closed), the list of
  pre-copy intervals has at most one open interval. One call changes the list only so:
  reason \<^verbatim>\<open>CopyingStage\<close> appends an open interval starting at the condition's last
  transition time when the list is empty or its last interval is closed; reason
  \<^verbatim>\<open>CopyingPaused\<close> sets the end of the last interval when it is open; any other
  reason, and an import without a \<^verbatim>\<open>Processing\<close> condition, leave the list as it is.
\<close>

theorem updateWarmStatus_precopies:
  "(list_all (\<lambda>p. \<not> is_open p) (butlast (Precopies vm)) \<longrightarrow>
      length (filter is_open (Precopies (warmCalls imps vm))) \<le> 1) \<and>
   (vm_Warm vm = None \<longrightarrow> length (filter is_open (Precopies (warmCalls imps vm))) \<le> 1) \<and>
   Precopies (updateWarmStatus vm imp) =
     (case FindCondition (imp_Conditions imp) Processing of
        None \<Rightarrow> Precopies vm
      | Some c \<Rightarrow>
          if cnd_Reason c = CopyingStage then
            (if Precopies vm = [] \<or> \<not> is_open (last (Precopies vm))
             then Precopies vm @ [\<lparr>pc_Start = Some (cnd_LastTransitionTime c), pc_End = None\<rparr>]
             else Precopies vm)
          else if cnd_Reason c = CopyingPaused then
            (if Precopies vm \<noteq> [] \<and> is_open (last (Precopies vm))
             then butlast (Precopies vm) @
                    [(last (Precopies vm))\<lparr>pc_End := Some (cnd_LastTransitionTime c)\<rparr>]
             else Precopies vm)
          else Precopies vm)"
proof -
  have "vm_Warm vm = None \<Longrightarrow> list_all (\<lambda>p. \<not> is_open p) (butlast (Precopies vm))"
    by (simp add: Precopies_def)
  then show ?thesis
    using closed_butlast_open_le_1 [OF closed_butlast_warmCalls, of vm imps]
    by (auto simp: Precopies_updateWarmStatus updatePrecopies_cases)
qed

theorem updateWarmStatus_precopies_witness:
  "vm_Warm (ex_Status ImportCreated) = None \<and>
   Precopies (warmCalls [ex_Processing CopyingStage 1, ex_Processing CopyingPaused 2,
                         ex_Processing CopyingStage 3, ex_Processing CopyingStage 4,
                         ex_Processing ConvertingGuest 5]
                (ex_Status ImportCreated)) =
     [\<lparr>pc_Start = Some 1, pc_End = Some 2\<rparr>, \<lparr>pc_Start = Some 3, pc_End = None\<rparr>] \<and>
   length (filter is_open
     (Precopies (warmCalls [ex_Processing CopyingStage 1, ex_Processing CopyingPaused 2,
                            ex_Processing CopyingStage 3, ex_Processing CopyingStage 4,
                            ex_Processing ConvertingGuest 5]
                   (ex_Status ImportCreated)))) \<le> 1"
proof -
  have a: "vm_Warm (ex_Status ImportCreated) = None"
    by (simp add: ex_Status_def)
  have b: "Precopies (warmCalls [ex_Processing CopyingStage 1, ex_Processing CopyingPaused 2,
                         ex_Processing CopyingStage 3, ex_Processing CopyingStage 4,
                         ex_Processing ConvertingGuest 5]
                (ex_Status ImportCreated)) =
     [\<lparr>pc_Start = Some 1, pc_End = Some 2\<rparr>, \<lparr>pc_Start = Some 3, pc_End = None\<rparr>]"
    by (simp add: warmCalls_def Precopies_def updateWarmStatus_def updatePrecopies_def
        ex_Processing_def FindCondition_def ex_Status_def)
  from updateWarmStatus_precopies [of "ex_Status ImportCreated"
      "[ex_Processing CopyingStage 1, ex_Processing CopyingPaused 2,
        ex_Processing CopyingStage 3, ex_Processing CopyingStage 4,
        ex_Processing ConvertingGuest 5]"] a b
  show ?thesis by blast
qed

subsection \<open>\<^verbatim>\<open>end\<close>: the outcome of the plan\<close>

lemma FindCondition_DeleteCondition:
  "FindCondition (DeleteCondition tys cs) ty =
     (if ty \<in> set tys then None else FindCondition cs ty)"
  unfolding FindCondition_def DeleteCondition_def
  by (induction cs) auto

lemma countLoop_eq:
  "countLoop vms failed succeeded =
     (if list_all MarkedCompleted vms
      then Some (failed + length (filter (\<lambda>vm. HasCondition (vm_Conditions vm) Failed) vms),
                 succeeded + length (filter (\<lambda>vm. HasCondition (vm_Conditions vm) Succeeded) vms))
      else None)"
  by (induction vms arbitrary: failed succeeded) auto

lemma filter_Nil_list_ex: "filter P xs = [] \<longleftrightarrow> \<not> list_ex P xs"
  by (induction xs) auto

lemma Cancel_snapshot:
  "ms_Snapshot (p_Migration (snd (Migration_Cancel r plan))) = ms_Snapshot (p_Migration plan)"
  by (simp add: Migration_Cancel_def split: option.splits prod.splits)

lemma end_not_completed:
  "\<not> list_all MarkedCompleted (ms_VMs (p_Migration plan)) \<Longrightarrow>
   Migration_end r plan = (False, None, plan)"
  by (simp add: Migration_end_def countLoop_eq)

lemma end_completed:
  assumes "list_all MarkedCompleted (ms_VMs (p_Migration plan))"
  shows "Migration_end r plan =
     (let ms = snap_SetCondition (outcome (ms_VMs (p_Migration plan)))
                 (snap_DeleteCondition [Executing]
                    (ms_MarkCompleted (r_now r) (p_Migration plan)))
      in if cnd_Type (outcome (ms_VMs (p_Migration plan))) = Failed
         then (True, Migration_Cancel r (plan\<lparr>p_Migration := ms\<rparr>))
         else (True, None, plan\<lparr>p_Migration := ms\<rparr>))"
  using assms
  by (auto simp: Migration_end_def countLoop_eq filter_Nil_list_ex outcome_def Let_def
      plan_Condition_def split: prod.splits)

lemma snapshot_stamp:
  "snap_Conditions (ms_Snapshot (snap_SetCondition c (snap_DeleteCondition tys
      (ms_MarkCompleted now ms)))) =
   SetCondition c (DeleteCondition tys (snap_Conditions (ms_Snapshot ms)))"
  by (simp add: snap_SetCondition_def snap_DeleteCondition_def ms_MarkCompleted_def)

text \<open>
  C4. When every VM of the plan's status is marked completed, \<^verbatim>\<open>end\<close> reports
  completed and stamps the active snapshot with one outcome condition: \<^verbatim>\<open>Failed\<close> if a
  VM has the \<^verbatim>\<open>Failed\<close> condition, in which case the rest of the result is that of
  \<^verbatim>\<open>Cancel\<close> on the stamped plan; otherwise \<^verbatim>\<open>Succeeded\<close> if a VM has the
  \<^verbatim>\<open>Succeeded\<close> condition; otherwise \<^verbatim>\<open>Canceled\<close>. In all three cases the
  \<^verbatim>\<open>Executing\<close> condition is gone from the snapshot and no condition of another type is
  touched. When some VM is not marked completed, \<^verbatim>\<open>end\<close> reports not completed, no
  error, and the plan unchanged.
\<close>

theorem Migration_end_outcome:
  "(list_all MarkedCompleted (ms_VMs (p_Migration plan)) \<longrightarrow>
      fst (Migration_end r plan) = True \<and>
      snap_Conditions (ms_Snapshot (p_Migration (snd (snd (Migration_end r plan))))) =
        SetCondition (outcome (ms_VMs (p_Migration plan)))
          (DeleteCondition [Executing] (snap_Conditions (ms_Snapshot (p_Migration plan)))) \<and>
      FindCondition (snap_Conditions (ms_Snapshot (p_Migration (snd (snd (Migration_end r plan))))))
        Executing = None \<and>
      HasCondition (snap_Conditions (ms_Snapshot (p_Migration (snd (snd (Migration_end r plan))))))
        (cnd_Type (outcome (ms_VMs (p_Migration plan)))) \<and>
      (\<forall>ty. ty \<noteq> Executing \<and> ty \<noteq> cnd_Type (outcome (ms_VMs (p_Migration plan))) \<longrightarrow>
         FindCondition
           (snap_Conditions (ms_Snapshot (p_Migration (snd (snd (Migration_end r plan)))))) ty =
         FindCondition (snap_Conditions (ms_Snapshot (p_Migration plan))) ty) \<and>
      (list_ex (\<lambda>vm. HasCondition (vm_Conditions vm) Failed) (ms_VMs (p_Migration plan)) \<longrightarrow>
         snd (Migration_end r plan) =
           Migration_Cancel r (plan\<lparr>p_Migration :=
             snap_SetCondition (plan_Condition Failed ''The plan execution has FAILED.'')
               (snap_DeleteCondition [Executing]
                  (ms_MarkCompleted (r_now r) (p_Migration plan)))\<rparr>))) \<and>
   (\<not> list_all MarkedCompleted (ms_VMs (p_Migration plan)) \<longrightarrow>
      Migration_end r plan = (False, None, plan))"
proof (intro conjI impI)
  assume nc: "\<not> list_all MarkedCompleted (ms_VMs (p_Migration plan))"
  then show "Migration_end r plan = (False, None, plan)" by (rule end_not_completed)
next
  assume c: "list_all MarkedCompleted (ms_VMs (p_Migration plan))"
  let ?o = "outcome (ms_VMs (p_Migration plan))"
  have ty: "cnd_Type ?o \<noteq> Executing" "cnd_Status ?o = cnd_True"
    by (simp_all add: outcome_def plan_Condition_def)
  show "fst (Migration_end r plan) = True"
    by (simp add: end_completed [OF c] Let_def)
  show cs: "snap_Conditions (ms_Snapshot (p_Migration (snd (snd (Migration_end r plan))))) =
        SetCondition ?o (DeleteCondition [Executing] (snap_Conditions (ms_Snapshot (p_Migration plan))))"
    by (simp add: end_completed [OF c] Let_def Cancel_snapshot snapshot_stamp)
  show "FindCondition (snap_Conditions (ms_Snapshot (p_Migration (snd (snd (Migration_end r plan))))))
        Executing = None"
    using ty by (simp add: cs FindCondition_SetCondition FindCondition_DeleteCondition)
  show "HasCondition (snap_Conditions (ms_Snapshot (p_Migration (snd (snd (Migration_end r plan))))))
        (cnd_Type ?o)"
    using ty by (simp add: cs HasCondition_SetCondition)
  show "\<forall>ty. ty \<noteq> Executing \<and> ty \<noteq> cnd_Type ?o \<longrightarrow>
         FindCondition
           (snap_Conditions (ms_Snapshot (p_Migration (snd (snd (Migration_end r plan)))))) ty =
         FindCondition (snap_Conditions (ms_Snapshot (p_Migration plan))) ty"
    by (simp add: cs FindCondition_SetCondition FindCondition_DeleteCondition)
  assume "list_ex (\<lambda>vm. HasCondition (vm_Conditions vm) Failed) (ms_VMs (p_Migration plan))"
  then show "snd (Migration_end r plan) =
           Migration_Cancel r (plan\<lparr>p_Migration :=
             snap_SetCondition (plan_Condition Failed ''The plan execution has FAILED.'')
               (snap_DeleteCondition [Executing]
                  (ms_MarkCompleted (r_now r) (p_Migration plan)))\<rparr>)"
    by (simp add: end_completed [OF c] Let_def outcome_def plan_Condition_def)
qed

theorem Migration_end_outcome_witness:
  "list_all MarkedCompleted (ms_VMs (p_Migration (ex_Plan [ex_Done Succeeded, ex_Done Failed]))) \<and>
   list_ex (\<lambda>vm. HasCondition (vm_Conditions vm) Failed)
     (ms_VMs (p_Migration (ex_Plan [ex_Done Succeeded, ex_Done Failed]))) \<and>
   fst (Migration_end ex_Migration (ex_Plan [ex_Done Succeeded, ex_Done Failed])) = True \<and>
   snap_Conditions (ms_Snapshot (p_Migration (snd (snd
      (Migration_end ex_Migration (ex_Plan [ex_Done Succeeded, ex_Done Failed])))))) =
     [plan_Condition Failed ''The plan execution has FAILED.''] \<and>
   \<not> list_all MarkedCompleted
       (ms_VMs (p_Migration (ex_Plan [ex_Done Succeeded, ex_Status ImportCreated]))) \<and>
   Migration_end ex_Migration (ex_Plan [ex_Done Succeeded, ex_Status ImportCreated]) =
     (False, None, ex_Plan [ex_Done Succeeded, ex_Status ImportCreated])"
proof -
  have a: "list_all MarkedCompleted
             (ms_VMs (p_Migration (ex_Plan [ex_Done Succeeded, ex_Done Failed])))"
    by (simp add: ex_Plan_def ex_Done_def MarkedCompleted_def)
  have b: "list_ex (\<lambda>vm. HasCondition (vm_Conditions vm) Failed)
             (ms_VMs (p_Migration (ex_Plan [ex_Done Succeeded, ex_Done Failed])))"
    by (simp add: ex_Plan_def ex_Done_def HasCondition_def FindCondition_def plan_Condition_def)
  have c: "\<not> list_all MarkedCompleted
             (ms_VMs (p_Migration (ex_Plan [ex_Done Succeeded, ex_Status ImportCreated])))"
    by (simp add: ex_Plan_def ex_Done_def ex_Status_def MarkedCompleted_def)
  have o: "outcome (ms_VMs (p_Migration (ex_Plan [ex_Done Succeeded, ex_Done Failed]))) =
             plan_Condition Failed ''The plan execution has FAILED.''"
    using b by (simp add: outcome_def)
  have d: "SetCondition (plan_Condition Failed ''The plan execution has FAILED.'')
             (DeleteCondition [Executing] (snap_Conditions (ms_Snapshot (p_Migration
                (ex_Plan [ex_Done Succeeded, ex_Done Failed]))))) =
           [plan_Condition Failed ''The plan execution has FAILED.'']"
    by (simp add: ex_Plan_def SetCondition_def DeleteCondition_def plan_Condition_def)
  from Migration_end_outcome [of "ex_Plan [ex_Done Succeeded, ex_Done Failed]" ex_Migration] a
  have e1: "fst (Migration_end ex_Migration (ex_Plan [ex_Done Succeeded, ex_Done Failed])) = True"
    and e2: "snap_Conditions (ms_Snapshot (p_Migration (snd (snd
      (Migration_end ex_Migration (ex_Plan [ex_Done Succeeded, ex_Done Failed])))))) =
      SetCondition (outcome (ms_VMs (p_Migration (ex_Plan [ex_Done Succeeded, ex_Done Failed]))))
        (DeleteCondition [Executing] (snap_Conditions (ms_Snapshot (p_Migration
                (ex_Plan [ex_Done Succeeded, ex_Done Failed])))))"
    by blast+
  from Migration_end_outcome [of "ex_Plan [ex_Done Succeeded, ex_Status ImportCreated]" ex_Migration] c
  have e3: "Migration_end ex_Migration (ex_Plan [ex_Done Succeeded, ex_Status ImportCreated]) =
     (False, None, ex_Plan [ex_Done Succeeded, ex_Status ImportCreated])"
    by blast
  show ?thesis
    using a b c e1 e3 unfolding e2 o d by blast
qed

subsection \<open>\<^verbatim>\<open>updatePipeline\<close>: the disk transfer\<close>















subsection \<open>\<^verbatim>\<open>buildPipeline\<close>: the loop ends\<close>

lemmas Next_simps = itinerary_Next_def itinerary_def admissible_def HasPreHook_def HasPostHook_def

lemma buildLoop_Completed:
  "buildLoop r vm \<lparr>it_Name = Completed, it_All = 0\<rparr> p = Some (Inr p)"
  by (subst buildLoop.simps) (simp add: buildStep_def Next_simps)

lemma buildLoop_PostHook:
  "buildLoop r vm \<lparr>it_Name = PostHook, it_All = HasPostHook\<rparr> p =
     Some (Inr (p @ [hookStep PostHook ''Run post-migration hook.'']))"
  by (subst buildLoop.simps) (simp add: buildStep_def Next_simps buildLoop_Completed)

lemma buildLoop_ImportCreated:
  "buildLoop r vm \<lparr>it_Name = ImportCreated, it_All = 0\<rparr> p =
     Some (Inr (p @ (if Evaluate vm HasPostHook
                     then [hookStep PostHook ''Run post-migration hook.''] else [])))"
  using buildLoop_PostHook [of r vm p]
  by (subst buildLoop.simps) (simp add: buildStep_def Next_simps buildLoop_Completed)

lemma buildLoop_CreateImport:
  "buildLoop r vm \<lparr>it_Name = CreateImport, it_All = 0\<rparr> p =
     (case r_Tasks r (vm_Ref vm) of
        Inl pErr \<Rightarrow> Some (Inl pErr)
      | Inr tasks \<Rightarrow>
          Some (Inr (p @ [diskStep tasks] @
            (if r_ProviderType r = VSphere
             then [hookStep ImageConversion ''Convert image to kubevirt.''] else []) @
            (if Evaluate vm HasPostHook
             then [hookStep PostHook ''Run post-migration hook.''] else []))))"
  by (subst buildLoop.simps)
     (simp add: buildStep_def Next_simps buildLoop_ImportCreated diskStep_def Let_def
        split: sum.splits)

lemma buildLoop_PreHook:
  "buildLoop r vm \<lparr>it_Name = PreHook, it_All = HasPreHook\<rparr> p =
     buildLoop r vm \<lparr>it_Name = CreateImport, it_All = 0\<rparr>
       (p @ [hookStep PreHook ''Run pre-migration hook.''])"
  by (subst buildLoop.simps) (simp add: buildStep_def Next_simps)

lemma buildLoop_Started:
  "buildLoop r vm \<lparr>it_Name = Started, it_All = 0\<rparr> [] =
     (case r_Tasks r (vm_Ref vm) of
        Inl pErr \<Rightarrow> Some (Inl pErr)
      | Inr tasks \<Rightarrow> Some (Inr (pipelineOf r vm tasks)))"
  using buildLoop_PreHook [of r vm "[]"]
  by (subst buildLoop.simps)
     (simp add: buildStep_def Next_simps buildLoop_CreateImport pipelineOf_def
        split: sum.splits)

lemma itinerary_First_Started:
  "itinerary_First vm = (\<lparr>it_Name = Started, it_All = 0\<rparr>, None)"
  by (simp add: itinerary_First_def itinerary_def admissible_def)

lemma buildPipeline_eq:
  "buildPipeline r vm =
     (case r_Tasks r (vm_Ref vm) of
        Inl pErr \<Rightarrow> Some (Inl pErr)
      | Inr tasks \<Rightarrow> Some (Inr (pipelineOf r vm tasks)))"
  by (simp add: buildPipeline_def itinerary_First_Started buildLoop_Started)

subsection \<open>\<^verbatim>\<open>begin\<close>: the statuses of the plan's VMs\<close>

lemma Status_FindVM_Some:
  "Status_FindVM kept ref = Some i \<Longrightarrow>
     i < length kept \<and> pr_ID (vm_Ref (kept ! i)) = pr_ID ref"
  by (induction kept arbitrary: i) (auto split: if_splits)

lemma ids_update:
  "i < length kept \<Longrightarrow> vm_Ref s = vm_Ref (kept ! i) \<Longrightarrow>
     map (\<lambda>v. pr_ID (vm_Ref v)) (kept[i := s]) = map (\<lambda>v. pr_ID (vm_Ref v)) kept"
  by (simp add: map_update list_update_same_conv)

lemma resetStatus_Ref: "vm_Ref (resetStatus pipeline phase status) = vm_Ref status"
  by (simp add: resetStatus_def MarkReset_def)

lemma deref_ids:
  assumes ids: "map (\<lambda>v. pr_ID (vm_Ref v)) kept' = map (\<lambda>v. pr_ID (vm_Ref v)) kept"
    and wf: "\<forall>i. Inl i \<in> set list \<longrightarrow> i < length kept"
  shows "map (\<lambda>x. pr_ID (vm_Ref (deref kept' x))) list =
         map (\<lambda>x. pr_ID (vm_Ref (deref kept x))) list"
proof -
  have len: "length kept' = length kept"
    using ids map_eq_imp_length_eq by blast
  have nth: "\<And>i. i < length kept \<Longrightarrow> pr_ID (vm_Ref (kept' ! i)) = pr_ID (vm_Ref (kept ! i))"
  proof -
    fix i assume i: "i < length kept"
    then have "map (\<lambda>v. pr_ID (vm_Ref v)) kept' ! i = map (\<lambda>v. pr_ID (vm_Ref v)) kept ! i"
      by (simp add: ids)
    with i len show "pr_ID (vm_Ref (kept' ! i)) = pr_ID (vm_Ref (kept ! i))"
      by simp
  qed
  show ?thesis
  proof (rule map_cong [OF refl])
    fix x assume "x \<in> set list"
    with wf nth show "pr_ID (vm_Ref (deref kept' x)) = pr_ID (vm_Ref (deref kept x))"
      by (cases x) (auto simp: deref_def)
  qed
qed

lemma addLoop_ids:
  assumes "\<forall>i. Inl i \<in> set list \<longrightarrow> i < length kept"
  shows "\<exists>err kept' list'. addLoop r vms kept list = Some (err, kept', list') \<and>
           map (\<lambda>v. pr_ID (vm_Ref v)) kept' = map (\<lambda>v. pr_ID (vm_Ref v)) kept \<and>
           (err = None \<longrightarrow>
              map (\<lambda>x. pr_ID (vm_Ref (deref kept' x))) list' =
              map (\<lambda>x. pr_ID (vm_Ref (deref kept x))) list @ map (\<lambda>v. pr_ID (vm_Ref v)) vms)"
  using assms
proof (induction vms arbitrary: kept list)
  case Nil
  then show ?case by simp
next
  case (Cons vm vms)
  let ?found = "Status_FindVM kept (vm_Ref vm)"
  let ?status = "case ?found of None \<Rightarrow> newStatus vm | Some i \<Rightarrow> kept ! i"
  let ?reset = "vm_Phase ?status \<noteq> Completed \<or>
                HasAnyCondition (vm_Conditions ?status) [Canceled, Failed]"
  have wf: "\<forall>i. Inl i \<in> set list \<longrightarrow> i < length kept" by fact
  show ?case
  proof (cases ?found)
    case None
    have new: "pr_ID (vm_Ref (newStatus vm)) = pr_ID (vm_Ref vm)"
      by (simp add: newStatus_def)
    show ?thesis
    proof (cases ?reset)
      case False
      have wf': "\<forall>i. Inl i \<in> set (list @ [Inr (newStatus vm)]) \<longrightarrow> i < length kept"
        using wf by auto
      from Cons.IH [OF wf'] None False new show ?thesis
        by (auto simp: Let_def deref_def)
    next
      case True
      show ?thesis
      proof (cases "r_Tasks r (vm_Ref vm)")
        case (Inl pErr)
        with None True show ?thesis by (simp add: Let_def buildPipeline_eq)
      next
        case (Inr tasks)
        let ?s = "resetStatus (pipelineOf r vm tasks) (it_Name (fst (itinerary_First vm)))
                    (newStatus vm)"
        have wf': "\<forall>i. Inl i \<in> set (list @ [Inr ?s]) \<longrightarrow> i < length kept"
          using wf by auto
        from Cons.IH [OF wf'] None True Inr new show ?thesis
          by (auto simp: Let_def buildPipeline_eq deref_def resetStatus_Ref)
      qed
    qed
  next
    case (Some i)
    then have i: "i < length kept" and id: "pr_ID (vm_Ref (kept ! i)) = pr_ID (vm_Ref vm)"
      by (simp_all add: Status_FindVM_Some)
    have wf': "\<forall>j. Inl j \<in> set (list @ [Inl i]) \<longrightarrow> j < length kept"
      using wf i by auto
    show ?thesis
    proof (cases ?reset)
      case False
      from Cons.IH [OF wf'] Some False id show ?thesis
        by (auto simp: Let_def deref_def)
    next
      case True
      show ?thesis
      proof (cases "r_Tasks r (vm_Ref vm)")
        case (Inl pErr)
        with Some True show ?thesis by (simp add: Let_def buildPipeline_eq)
      next
        case (Inr tasks)
        let ?s = "resetStatus (pipelineOf r vm tasks) (it_Name (fst (itinerary_First vm)))
                    (kept ! i)"
        let ?kept = "kept[i := ?s]"
        have ids: "map (\<lambda>v. pr_ID (vm_Ref v)) ?kept = map (\<lambda>v. pr_ID (vm_Ref v)) kept"
          using i by (simp add: ids_update resetStatus_Ref)
        have wf2: "\<forall>j. Inl j \<in> set (list @ [Inl i]) \<longrightarrow> j < length ?kept"
          using wf' by simp
        have old: "map (\<lambda>x. pr_ID (vm_Ref (deref ?kept x))) (list @ [Inl i]) =
                   map (\<lambda>x. pr_ID (vm_Ref (deref kept x))) (list @ [Inl i])"
          by (rule deref_ids [OF ids wf'])
        from Cons.IH [OF wf2] obtain err kept' list' where
          res: "addLoop r vms ?kept (list @ [Inl i]) = Some (err, kept', list')"
          and k: "map (\<lambda>v. pr_ID (vm_Ref v)) kept' = map (\<lambda>v. pr_ID (vm_Ref v)) ?kept"
          and l: "err = None \<longrightarrow>
              map (\<lambda>x. pr_ID (vm_Ref (deref kept' x))) list' =
              map (\<lambda>x. pr_ID (vm_Ref (deref ?kept x))) (list @ [Inl i]) @
              map (\<lambda>v. pr_ID (vm_Ref v)) vms"
          by blast
        have step: "addLoop r (vm # vms) kept list = addLoop r vms ?kept (list @ [Inl i])"
          using Some True Inr by (simp add: Let_def buildPipeline_eq)
        from l old id have l': "err = None \<longrightarrow>
              map (\<lambda>x. pr_ID (vm_Ref (deref kept' x))) list' =
              map (\<lambda>x. pr_ID (vm_Ref (deref kept x))) list @
              map (\<lambda>v. pr_ID (vm_Ref v)) (vm # vms)"
          by (simp add: deref_def)
        from res k ids l' show ?thesis
          unfolding step by auto
      qed
    qed
  qed
qed

text \<open>
  C3, as the code has it. \<^verbatim>\<open>begin\<close> always returns. When the active snapshot has none
  of the conditions \<^verbatim>\<open>Executing\<close>, \<^verbatim>\<open>Succeeded\<close>, \<^verbatim>\<open>Failed\<close>, \<^verbatim>\<open>Canceled\<close> and
  \<^verbatim>\<open>begin\<close> returns no error, the list of VM statuses has one status per VM of the
  plan's spec, in the order of the spec: the references of the statuses, matched by ID as
  \<^verbatim>\<open>FindVM\<close> matches them, are the references of the spec's VMs, one for one. When the
  snapshot has one of these conditions, \<^verbatim>\<open>begin\<close> returns no error and the plan as it
  was.
\<close>

theorem Migration_begin_VMs:
  "(\<exists>res. Migration_begin r plan = Some res) \<and>
   (\<not> HasAnyCondition (snap_Conditions (ms_Snapshot (p_Migration plan)))
         [Executing, Succeeded, Failed, Canceled] \<and>
    Migration_begin r plan = Some (None, plan') \<longrightarrow>
      p_VMs plan' = p_VMs plan \<and>
      map (\<lambda>v. pr_ID (vm_Ref v)) (ms_VMs (p_Migration plan')) =
      map (\<lambda>v. pr_ID (vm_Ref v)) (p_VMs plan)) \<and>
   (HasAnyCondition (snap_Conditions (ms_Snapshot (p_Migration plan)))
       [Executing, Succeeded, Failed, Canceled] \<longrightarrow>
      Migration_begin r plan = Some (None, plan))"
proof (cases "HasAnyCondition (snap_Conditions (ms_Snapshot (p_Migration plan)))
                [Executing, Succeeded, Failed, Canceled]")
  case True
  then show ?thesis by (simp add: Migration_begin_def)
next
  case False
  let ?ms = "snap_SetCondition (plan_Condition Executing ''The plan is EXECUTING.'')
               (ms_MarkStarted (r_now r) (ms_MarkReset (p_Migration plan)))"
  show ?thesis
  proof (cases "r_EnsureNamespace r")
    case (Some err)
    with False show ?thesis by (simp add: Migration_begin_def Let_def)
  next
    case None
    obtain kerr statuses kept where k: "keepLoop r (p_VMs plan) (ms_VMs ?ms) = (kerr, statuses, kept)"
      by (cases "keepLoop r (p_VMs plan) (ms_VMs ?ms)") auto
    show ?thesis
    proof (cases kerr)
      case (Some err)
      with False None k show ?thesis by (simp add: Migration_begin_def Let_def)
    next
      case kn: None
      have "\<forall>i. Inl i \<in> set [] \<longrightarrow> i < length kept" by simp
      from addLoop_ids [OF this, of r "p_VMs plan"] obtain err kept' list' where
        a: "addLoop r (p_VMs plan) kept [] = Some (err, kept', list')"
        and l: "err = None \<longrightarrow>
              map (\<lambda>x. pr_ID (vm_Ref (deref kept' x))) list' =
              map (\<lambda>v. pr_ID (vm_Ref v)) (p_VMs plan)"
        by auto
      show ?thesis
      proof (cases err)
        case (Some e)
        with False None k kn a show ?thesis by (simp add: Migration_begin_def Let_def)
      next
        case en: None
        with l have "map (\<lambda>v. pr_ID (vm_Ref v)) (map (deref kept') list') =
                     map (\<lambda>v. pr_ID (vm_Ref v)) (p_VMs plan)"
          by (simp add: comp_def)
        with False None k kn a en show ?thesis
          by (auto simp: Migration_begin_def Let_def)
      qed
    qed
  qed
qed

text \<open>
  Without the condition on the snapshot the claim fails. \<^verbatim>\<open>begin\<close> stamps the snapshot
  \<^verbatim>\<open>Executing\<close> before it ensures the namespace; when that fails, the next call finds the
  snapshot executing, returns no error and leaves the empty list of statuses as it is,
  though the spec lists a VM.
\<close>

theorem Migration_begin_VMs_counterexample:
  "Migration_begin ex_NoNamespace ex_Fresh = Some (Some (OtherError ''forbidden''), ex_Stuck) \<and>
   Migration_begin ex_Migration ex_Stuck = Some (None, ex_Stuck) \<and>
   p_VMs ex_Stuck = [ex_VM] \<and> ms_VMs (p_Migration ex_Stuck) = []"
  by (simp add: Migration_begin_def ex_NoNamespace_def ex_Migration_def ex_Fresh_def
      ex_Stuck_def HasAnyCondition_def HasCondition_def FindCondition_def plan_Condition_def
      snap_SetCondition_def SetCondition_def ms_MarkStarted_def ms_MarkReset_def)

theorem Migration_begin_VMs_witness:
  "\<not> HasAnyCondition (snap_Conditions (ms_Snapshot (p_Migration ex_Fresh)))
        [Executing, Succeeded, Failed, Canceled] \<and>
   Migration_begin ex_Migration ex_Fresh =
     Some (None, ex_Stuck\<lparr>p_Migration := (p_Migration ex_Stuck)\<lparr>ms_VMs := [ex_Begun]\<rparr>\<rparr>) \<and>
   map (\<lambda>v. pr_ID (vm_Ref v)) [ex_Begun] = map (\<lambda>v. pr_ID (vm_Ref v)) (p_VMs ex_Fresh)"
proof -
  have a: "\<not> HasAnyCondition (snap_Conditions (ms_Snapshot (p_Migration ex_Fresh)))
        [Executing, Succeeded, Failed, Canceled]"
    by (simp add: ex_Fresh_def HasAnyCondition_def HasCondition_def FindCondition_def)
  have p: "pipelineOf ex_Migration ex_VM [] = vm_Pipeline ex_Begun"
    by (simp add: pipelineOf_def ex_Begun_def Evaluate_def ex_VM_def ex_Migration_def)
  have n: "resetStatus (vm_Pipeline ex_Begun) Started (newStatus ex_VM) = ex_Begun"
    by (simp add: resetStatus_def newStatus_def MarkReset_def DeleteCondition_def ex_Begun_def
        ex_VM_def)
  have l: "addLoop ex_Migration [ex_VM] [] [] = Some (None, [], [Inr ex_Begun])"
    by (simp add: Let_def buildPipeline_eq itinerary_First_Started newStatus_def
        HasAnyCondition_def HasCondition_def FindCondition_def)
       (simp add: ex_Migration_def p [unfolded ex_Migration_def] n n [unfolded newStatus_def])
  have e1: "r_EnsureNamespace ex_Migration = None" "r_now ex_Migration = 7"
    by (simp_all add: ex_Migration_def)
  have e2: "p_VMs ex_Fresh = [ex_VM]"
    by (simp add: ex_Fresh_def)
  have e3: "snap_SetCondition (plan_Condition Executing ''The plan is EXECUTING.'')
              (ms_MarkStarted 7 (ms_MarkReset (p_Migration ex_Fresh))) = p_Migration ex_Stuck"
    by (simp add: ex_Fresh_def ex_Stuck_def snap_SetCondition_def SetCondition_def
        ms_MarkStarted_def ms_MarkReset_def)
  have e4: "ms_VMs (p_Migration ex_Stuck) = []"
    by (simp add: ex_Stuck_def)
  have e5: "ex_Fresh\<lparr>p_Migration := (p_Migration ex_Stuck)\<lparr>ms_VMs := [ex_Begun]\<rparr>\<rparr> =
            ex_Stuck\<lparr>p_Migration := (p_Migration ex_Stuck)\<lparr>ms_VMs := [ex_Begun]\<rparr>\<rparr>"
    by (simp add: ex_Fresh_def ex_Stuck_def)
  have b: "Migration_begin ex_Migration ex_Fresh =
     Some (None, ex_Stuck\<lparr>p_Migration := (p_Migration ex_Stuck)\<lparr>ms_VMs := [ex_Begun]\<rparr>\<rparr>)"
    using a
    by (simp add: Migration_begin_def Let_def e1 e2 e3 e4 e5 l deref_def del: addLoop.simps)
  from Migration_begin_VMs [of ex_Migration ex_Fresh
      "ex_Stuck\<lparr>p_Migration := (p_Migration ex_Stuck)\<lparr>ms_VMs := [ex_Begun]\<rparr>\<rparr>"] a b
  show ?thesis by simp
qed

subsection \<open>The outcome conditions of a VM over two executions\<close>

lemmas ex_step_simps = step_def stepSwitch_def stepStamp_def stepImport_def next_def
  Next_simps Evaluate_def FindStep_def ex_Begun_def diskStep_def ex_simps
  list_ex_iff list_all_iff cnd_Succeeded_def cnd_Failed_def cnd_Canceled_def

lemma trace1:
  "step ex_Migration ex_Begun =
     (None, ex_Begun\<lparr>vm_Started := Some 7, vm_Phase := CreateImport\<rparr>)"
  by (simp add: ex_step_simps)

lemma trace2:
  "step ex_Migration (ex_Begun\<lparr>vm_Started := Some 7, vm_Phase := CreateImport\<rparr>) =
     (None, ex_Begun\<lparr>vm_Started := Some 7, vm_Phase := ImportCreated\<rparr>)"
  by (simp add: ex_step_simps)

lemma trace3:
  "step ex_Imported (ex_Begun\<lparr>vm_Started := Some 7, vm_Phase := ImportCreated\<rparr>) =
     (None, ex_Succeeded)"
  by (simp add: ex_step_simps ex_Imported_def ex_Converted_def ex_Import_def ex_Succeeded_def
      updateVM_def updatePipeline_def stepDiskTransfer_def stepImageConversion_def
      ReflectTasks_def FindCondition_def plan_Condition_def t_MarkCompleted_def Let_def)

lemma trace4:
  "step ex_Canceling ex_Succeeded =
     (None, ex_Succeeded\<lparr>vm_Conditions := [cnd_Succeeded, cnd_Canceled]\<rparr>)"
  by (simp add: step_def ex_Canceling_def ex_Succeeded_def ex_Begun_def Spec_Canceled_def
      vm_SetCondition_def SetCondition_def cnd_Succeeded_def cnd_Canceled_def)

lemma trace5:
  "Migration_begin ex_Migration ex_Again =
     Some (None, ex_Stuck\<lparr>p_Migration := (p_Migration ex_Stuck)\<lparr>ms_VMs := [ex_Restarted]\<rparr>\<rparr>)"
proof -
  let ?v4 = "ex_Succeeded\<lparr>vm_Conditions := [cnd_Succeeded, cnd_Canceled]\<rparr>"
  have a: "\<not> HasAnyCondition (snap_Conditions (ms_Snapshot (p_Migration ex_Again)))
        [Executing, Succeeded, Failed, Canceled]"
    by (simp add: ex_Again_def ex_Fresh_def HasAnyCondition_def HasCondition_def
        FindCondition_def)
  have e1: "r_EnsureNamespace ex_Migration = None" "r_now ex_Migration = 7"
    by (simp_all add: ex_Migration_def)
  have e2: "p_VMs ex_Again = [ex_VM]"
    by (simp add: ex_Again_def ex_Fresh_def)
  have e3: "snap_SetCondition (plan_Condition Executing ''The plan is EXECUTING.'')
              (ms_MarkStarted 7 (ms_MarkReset (p_Migration ex_Again))) =
            (p_Migration ex_Stuck)\<lparr>ms_VMs := [?v4]\<rparr>"
    by (simp add: ex_Again_def ex_Fresh_def ex_Stuck_def snap_SetCondition_def
        SetCondition_def ms_MarkStarted_def ms_MarkReset_def)
  have k: "keepLoop ex_Migration [ex_VM] [?v4] = (None, [?v4], [?v4])"
    by (simp add: ex_Migration_def Spec_FindVM_def ex_Succeeded_def ex_Begun_def Let_def)
  have p: "pipelineOf ex_Migration ex_VM [] = vm_Pipeline ex_Begun"
    by (simp add: pipelineOf_def ex_Begun_def Evaluate_def ex_VM_def ex_Migration_def)
  have t: "r_Tasks ex_Migration (vm_Ref ex_VM) = Inr []"
    by (simp add: ex_Migration_def)
  have n: "resetStatus (vm_Pipeline ex_Begun) Started ?v4 = ex_Restarted"
    by (simp add: resetStatus_def MarkReset_def DeleteCondition_def ex_Restarted_def
        ex_Succeeded_def ex_Begun_def cnd_Succeeded_def cnd_Canceled_def)
  have f: "Status_FindVM [?v4] (vm_Ref ex_VM) = Some 0"
    by (simp add: ex_Succeeded_def ex_Begun_def)
  have h: "vm_Phase ex_Succeeded = Completed"
    "HasAnyCondition [cnd_Succeeded, cnd_Canceled] [Canceled, Failed]"
    by (simp_all add: ex_Succeeded_def HasAnyCondition_def HasCondition_def FindCondition_def
        cnd_Succeeded_def cnd_Canceled_def)
  have l: "addLoop ex_Migration [ex_VM] [?v4] [] = Some (None, [ex_Restarted], [Inl 0])"
    by (simp add: Let_def f h buildPipeline_eq t p n itinerary_First_Started
        del: Status_FindVM.simps)
  have e5: "ex_Again\<lparr>p_Migration := (p_Migration ex_Stuck)\<lparr>ms_VMs := [ex_Restarted]\<rparr>\<rparr> =
            ex_Stuck\<lparr>p_Migration := (p_Migration ex_Stuck)\<lparr>ms_VMs := [ex_Restarted]\<rparr>\<rparr>"
    by (simp add: ex_Again_def ex_Fresh_def ex_Stuck_def)
  show ?thesis
    using a
    by (simp add: Migration_begin_def Let_def e1 e2 e3 k l e5 deref_def del: addLoop.simps keepLoop.simps)
qed

lemma trace6:
  "step ex_Migration ex_Restarted =
     (None, ex_Restarted\<lparr>vm_Started := Some 7, vm_Phase := CreateImport\<rparr>)"
  by (simp add: ex_step_simps ex_Restarted_def)

lemma trace7:
  "step ex_Failing (ex_Restarted\<lparr>vm_Started := Some 7, vm_Phase := CreateImport\<rparr>) =
     (None, ex_Restarted\<lparr>vm_Started := Some 7, vm_Phase := Completed,
              vm_Error := Some \<lparr>err_Phase = CreateImport, err_Reasons = [''boom'']\<rparr>,
              vm_Conditions := [cnd_Succeeded, cnd_Failed]\<rparr>)"
  by (simp add: ex_step_simps ex_Restarted_def ex_Failing_def)

text \<open>
  C5. The calls below are a run of the controller on the sample VM. \<^verbatim>\<open>begin\<close> has
  created its status; three calls of \<^verbatim>\<open>step\<close> take it through \<^verbatim>\<open>CreateImport\<close> and
  \<^verbatim>\<open>ImportCreated\<close> to \<^verbatim>\<open>Completed\<close> with the \<^verbatim>\<open>Succeeded\<close> condition; the user
  cancels the VM and \<^verbatim>\<open>step\<close> adds \<^verbatim>\<open>Canceled\<close>. In the next execution \<^verbatim>\<open>begin\<close>
  resets the status because it is canceled, deleting \<^verbatim>\<open>Canceled\<close> and \<^verbatim>\<open>Failed\<close> but
  not \<^verbatim>\<open>Succeeded\<close>: the VM is in phase \<^verbatim>\<open>Started\<close> with the \<^verbatim>\<open>Succeeded\<close> condition.
  When its import then fails, \<^verbatim>\<open>step\<close> stamps \<^verbatim>\<open>Failed\<close> beside \<^verbatim>\<open>Succeeded\<close>.
\<close>

theorem Succeeded_Failed_reachable:
  "step ex_Migration ex_Begun =
     (None, ex_Begun\<lparr>vm_Started := Some 7, vm_Phase := CreateImport\<rparr>) \<and>
   step ex_Migration (ex_Begun\<lparr>vm_Started := Some 7, vm_Phase := CreateImport\<rparr>) =
     (None, ex_Begun\<lparr>vm_Started := Some 7, vm_Phase := ImportCreated\<rparr>) \<and>
   step ex_Imported (ex_Begun\<lparr>vm_Started := Some 7, vm_Phase := ImportCreated\<rparr>) =
     (None, ex_Succeeded) \<and>
   step ex_Canceling ex_Succeeded =
     (None, ex_Succeeded\<lparr>vm_Conditions := [cnd_Succeeded, cnd_Canceled]\<rparr>) \<and>
   Migration_begin ex_Migration ex_Again =
     Some (None, ex_Stuck\<lparr>p_Migration := (p_Migration ex_Stuck)\<lparr>ms_VMs := [ex_Restarted]\<rparr>\<rparr>) \<and>
   HasCondition (vm_Conditions ex_Restarted) Succeeded \<and>
   vm_Phase ex_Restarted = Started \<and>
   step ex_Migration ex_Restarted =
     (None, ex_Restarted\<lparr>vm_Started := Some 7, vm_Phase := CreateImport\<rparr>) \<and>
   step ex_Failing (ex_Restarted\<lparr>vm_Started := Some 7, vm_Phase := CreateImport\<rparr>) =
     (None, ex_Restarted\<lparr>vm_Started := Some 7, vm_Phase := Completed,
              vm_Error := Some \<lparr>err_Phase = CreateImport, err_Reasons = [''boom'']\<rparr>,
              vm_Conditions := [cnd_Succeeded, cnd_Failed]\<rparr>) \<and>
   HasCondition [cnd_Succeeded, cnd_Failed] Succeeded \<and>
   HasCondition [cnd_Succeeded, cnd_Failed] Failed"
  using trace1 trace2 trace3 trace4 trace5 trace6 trace7
  by (simp add: ex_Restarted_def ex_Begun_def HasCondition_def FindCondition_def
      cnd_Succeeded_def cnd_Failed_def)

subsection \<open>The outcome conditions of a VM within one execution\<close>

lemma HasCondition_DeleteCondition:
  "HasCondition (DeleteCondition tys cs) ty = (ty \<notin> set tys \<and> HasCondition cs ty)"
  by (simp add: HasCondition_def FindCondition_DeleteCondition)

lemma fold_AddError_None:
  "vm_Error (fold (\<lambda>step vm. case t_Error step of None \<Rightarrow> vm
                     | Some x \<Rightarrow> AddError (err_Reasons x) vm) steps vm) = None \<longleftrightarrow>
     vm_Error vm = None \<and> list_all (\<lambda>s. t_Error s = None) steps"
proof (induction steps arbitrary: vm)
  case Nil
  then show ?case by simp
next
  case (Cons s steps)
  show ?case
  proof (cases "t_Error s")
    case None
    with Cons show ?thesis by simp
  next
    case (Some x)
    have "vm_Error (AddError (err_Reasons x) vm) \<noteq> None"
      by (simp add: AddError_def Error_Add_def split: option.splits)
    with Cons [of "AddError (err_Reasons x) vm"] Some show ?thesis by simp
  qed
qed

lemma fold_AddError_frame:
  "vm_Conditions (fold (\<lambda>step vm. case t_Error step of None \<Rightarrow> vm
                     | Some x \<Rightarrow> AddError (err_Reasons x) vm) steps vm) = vm_Conditions vm \<and>
   vm_Phase (fold (\<lambda>step vm. case t_Error step of None \<Rightarrow> vm
                     | Some x \<Rightarrow> AddError (err_Reasons x) vm) steps vm) = vm_Phase vm"
  by (induction steps arbitrary: vm) (auto simp: AddError_def split: option.splits)

lemma reflects_errors_ReflectPipeline: "reflects_errors (ReflectPipeline now)"
  unfolding reflects_errors_def
proof
  fix vm :: VMStatus
  let ?g = "fold (\<lambda>step vm. case t_Error step of None \<Rightarrow> vm
                     | Some x \<Rightarrow> AddError (err_Reasons x) vm) (vm_Pipeline vm) vm"
  have r: "ReflectPipeline now vm =
      (let v = (if list_ex t_MarkedStarted (vm_Pipeline ?g) then MarkStarted now ?g else ?g)
       in if list_all t_MarkedCompleted (vm_Pipeline v) then MarkCompleted now v else v)"
    by (simp add: ReflectPipeline_def Let_def)
  show "vm_Conditions (ReflectPipeline now vm) = vm_Conditions vm \<and>
        vm_Phase (ReflectPipeline now vm) = vm_Phase vm \<and>
        vm_Pipeline (ReflectPipeline now vm) = vm_Pipeline vm \<and>
        (vm_Error (ReflectPipeline now vm) = None \<longleftrightarrow>
           vm_Error vm = None \<and> list_all (\<lambda>s. t_Error s = None) (vm_Pipeline vm))"
    using fold_AddError_None [of "vm_Pipeline vm" vm] fold_AddError_frame [of "vm_Pipeline vm" vm]
      fold_AddError_pipeline [of "vm_Pipeline vm" vm]
    by (simp add: r Let_def MarkStarted_def MarkCompleted_def)
qed

lemma stepImageConversion_fst:
  "\<exists>cs. fst (stepImageConversion r imp vm s) = vm\<lparr>vm_Conditions := cs\<rparr> \<and>
        (\<forall>ty. ty \<noteq> Pending \<and> ty \<noteq> Paused \<longrightarrow>
              HasCondition cs ty = HasCondition (vm_Conditions vm) ty)"
proof (cases "FindCondition (imp_Conditions imp) Processing")
  case None
  then have "fst (stepImageConversion r imp vm s) = vm"
    by (simp add: stepImageConversion_def Let_def split: option.splits)
  then have "fst (stepImageConversion r imp vm s) = vm\<lparr>vm_Conditions := vm_Conditions vm\<rparr>"
    by simp
  then show ?thesis by blast
next
  case (Some cnd)
  consider (pending) "cnd_Reason cnd = Pending"
    | (paused) "cnd_Reason cnd \<noteq> Pending" "cnd_Reason cnd = CopyingPaused"
    | (other) "cnd_Reason cnd \<noteq> Pending" "cnd_Reason cnd \<noteq> CopyingPaused"
    by blast
  then show ?thesis
  proof cases
    case pending
    with Some have "fst (stepImageConversion r imp vm s) =
        vm\<lparr>vm_Conditions := SetCondition
             \<lparr>cnd_Type = Pending, cnd_Status = cnd_True, cnd_Category = Advisory,
              cnd_Reason = [], cnd_Message = ''The VM migration is PENDING.'',
              cnd_Durable = False, cnd_LastTransitionTime = 0\<rparr> (vm_Conditions vm)\<rparr>"
      by (simp add: stepImageConversion_def Let_def vm_SetCondition_def split: option.splits)
    then show ?thesis
      by (intro exI conjI, assumption) (simp add: HasCondition_SetCondition)
  next
    case paused
    with Some have "fst (stepImageConversion r imp vm s) =
        vm\<lparr>vm_Conditions := SetCondition
             \<lparr>cnd_Type = Paused, cnd_Status = cnd_True, cnd_Category = Advisory,
              cnd_Reason = [], cnd_Message = ''The VM migration is PAUSED.'',
              cnd_Durable = False, cnd_LastTransitionTime = 0\<rparr> (vm_Conditions vm)\<rparr>"
      by (simp add: stepImageConversion_def Let_def vm_SetCondition_def split: option.splits)
    then show ?thesis
      by (intro exI conjI, assumption) (simp add: HasCondition_SetCondition)
  next
    case other
    with Some have "fst (stepImageConversion r imp vm s) = vm"
      by (simp add: stepImageConversion_def Let_def split: option.splits)
    then have "fst (stepImageConversion r imp vm s) = vm\<lparr>vm_Conditions := vm_Conditions vm\<rparr>"
      by simp
    then show ?thesis by blast
  qed
qed

lemma stepImageConversion_conditions:
  assumes "ty \<noteq> Pending" "ty \<noteq> Paused"
  shows "HasCondition (vm_Conditions (fst (stepImageConversion r imp vm s))) ty =
         HasCondition (vm_Conditions vm) ty"
proof -
  from stepImageConversion_fst [of r imp vm s] obtain cs where
    e: "fst (stepImageConversion r imp vm s) = vm\<lparr>vm_Conditions := cs\<rparr>"
    and h: "\<forall>ty. ty \<noteq> Pending \<and> ty \<noteq> Paused \<longrightarrow>
              HasCondition cs ty = HasCondition (vm_Conditions vm) ty"
    by blast
  from h assms have "HasCondition cs ty = HasCondition (vm_Conditions vm) ty"
    by blast
  then show ?thesis by (simp add: e)
qed

lemma updateSteps_snd_completed:
  "t_MarkedCompleted s \<Longrightarrow>
   snd (updateSteps r imp (s # steps) vm) = snd (updateSteps r imp steps vm)"
  by (simp add: split_beta)

lemma updateSteps_snd_DiskTransfer:
  "\<not> t_MarkedCompleted s \<Longrightarrow> t_Name s = DiskTransfer \<Longrightarrow>
   snd (updateSteps r imp (s # steps) vm) =
     snd (updateSteps r imp steps
            (case t_Error (r_ReflectTasks r (stepDiskTransfer r imp s)) of
               None \<Rightarrow> vm
             | Some e \<Rightarrow> AddError (err_Reasons e) vm))"
  by (simp add: Let_def split_beta split: option.splits)

lemma updateSteps_snd_ImageConversion:
  "\<not> t_MarkedCompleted s \<Longrightarrow> t_Name s \<noteq> DiskTransfer \<Longrightarrow> t_Name s = ImageConversion \<Longrightarrow>
   snd (updateSteps r imp (s # steps) vm) =
     snd (updateSteps r imp steps
            (case t_Error (r_ReflectTasks r (snd (stepImageConversion r imp vm s))) of
               None \<Rightarrow> fst (stepImageConversion r imp vm s)
             | Some e \<Rightarrow> AddError (err_Reasons e) (fst (stepImageConversion r imp vm s))))"
  by (simp add: Let_def split_beta split: option.splits)

lemma updateSteps_snd_other:
  "\<not> t_MarkedCompleted s \<Longrightarrow> t_Name s \<noteq> DiskTransfer \<Longrightarrow> t_Name s \<noteq> ImageConversion \<Longrightarrow>
   snd (updateSteps r imp (s # steps) vm) =
     snd (updateSteps r imp steps
            (case t_Error (r_ReflectTasks r s) of
               None \<Rightarrow> vm
             | Some e \<Rightarrow> AddError (err_Reasons e) vm))"
  by (simp add: Let_def split_beta split: option.splits)

lemma AddError_case_conditions:
  "vm_Conditions (case e of None \<Rightarrow> vm | Some x \<Rightarrow> AddError (err_Reasons x) vm) =
   vm_Conditions vm"
  by (simp add: AddError_def split: option.splits)

lemma updateSteps_conditions:
  assumes ty: "ty \<noteq> Pending" "ty \<noteq> Paused"
  shows "HasCondition (vm_Conditions (snd (updateSteps r imp steps vm))) ty =
         HasCondition (vm_Conditions vm) ty"
proof (induction steps arbitrary: vm)
  case Nil
  then show ?case by simp
next
  case (Cons s steps)
  consider (completed) "t_MarkedCompleted s"
    | (disk) "\<not> t_MarkedCompleted s" "t_Name s = DiskTransfer"
    | (conv) "\<not> t_MarkedCompleted s" "t_Name s \<noteq> DiskTransfer" "t_Name s = ImageConversion"
    | (other) "\<not> t_MarkedCompleted s" "t_Name s \<noteq> DiskTransfer" "t_Name s \<noteq> ImageConversion"
    by blast
  then show ?case
  proof cases
    case completed
    show ?thesis
      by (simp only: updateSteps_snd_completed [OF completed] Cons.IH)
  next
    case disk
    show ?thesis
      by (simp only: updateSteps_snd_DiskTransfer [OF disk] Cons.IH AddError_case_conditions)
  next
    case conv
    show ?thesis
      by (simp only: updateSteps_snd_ImageConversion [OF conv] Cons.IH
          AddError_case_conditions stepImageConversion_conditions [OF ty])
  next
    case other
    show ?thesis
      by (simp only: updateSteps_snd_other [OF other] Cons.IH AddError_case_conditions)
  qed
qed

lemma updateVM_conditions:
  assumes ty: "ty \<noteq> Pending" "ty \<noteq> Paused"
  shows "HasCondition (vm_Conditions (snd (updateVM r vm))) ty =
         HasCondition (vm_Conditions vm) ty"
proof (cases "r_ImportMap r")
  case (Inl err)
  then show ?thesis by (simp add: updateVM_def)
next
  case (Inr importMap)
  show ?thesis
  proof (cases "importMap (pr_ID (vm_Ref vm))")
    case None
    with Inr show ?thesis by (simp add: updateVM_def AddError_def)
  next
    case (Some imp)
    have "vm_Conditions (snd (updateVM r vm)) =
          vm_Conditions (snd (updateSteps r imp (vm_Pipeline vm) vm))"
      using Inr Some
      by (simp add: updateVM_def updatePipeline_def updateWarmStatus_def Let_def split_beta)
    with updateSteps_conditions [OF ty, of r imp "vm_Pipeline vm" vm] show ?thesis by simp
  qed
qed

lemma stepSwitch_Completed:
  "vm_Phase vm = Completed \<Longrightarrow> stepSwitch r vm = (None, MarkCompleted (r_now r) vm)"
  by (simp add: stepSwitch_def)

lemma MarkCompleted_frame:
  "vm_Conditions (MarkCompleted now vm) = vm_Conditions vm"
  "vm_Phase (MarkCompleted now vm) = vm_Phase vm"
  "vm_Error (MarkCompleted now vm) = vm_Error vm"
  "vm_Pipeline (MarkCompleted now vm) = vm_Pipeline vm"
  by (simp_all add: MarkCompleted_def)

lemma stepImport_conditions: "vm_Conditions (stepImport vm found) = vm_Conditions vm"
  by (simp add: stepImport_def split: option.splits)

lemma stepSwitch_conditions:
  assumes phase: "vm_Phase vm \<noteq> Completed"
    and hook: "keeps_conditions (r_HookRunner_Run r)"
    and ty: "ty \<noteq> Pending" "ty \<noteq> Paused"
  shows "HasCondition (vm_Conditions (snd (stepSwitch r vm))) ty =
         HasCondition (vm_Conditions vm) ty"
proof -
  consider (started) "vm_Phase vm = Started"
    | (hook) "vm_Phase vm = PreHook \<or> vm_Phase vm = PostHook"
    | (create) "vm_Phase vm = CreateImport"
    | (created) "vm_Phase vm = ImportCreated"
    | (unknown) "vm_Phase vm \<noteq> Started" "vm_Phase vm \<noteq> PreHook" "vm_Phase vm \<noteq> PostHook"
        "vm_Phase vm \<noteq> CreateImport" "vm_Phase vm \<noteq> ImportCreated"
    by blast
  then show ?thesis
  proof cases
    case started
    then show ?thesis by (simp add: stepSwitch_def Let_def MarkStarted_def)
  next
    case hook
    obtain err vm1 where run: "r_HookRunner_Run r vm = (err, vm1)"
      by (cases "r_HookRunner_Run r vm") auto
    with \<open>keeps_conditions (r_HookRunner_Run r)\<close> have c: "vm_Conditions vm1 = vm_Conditions vm"
      unfolding keeps_conditions_def by (metis snd_conv)
    have "vm_Conditions (snd (stepSwitch r vm)) = vm_Conditions vm1"
      using hook run by (auto simp: stepSwitch_def split: option.splits)
    with c show ?thesis by simp
  next
    case create
    then have "vm_Conditions (snd (stepSwitch r vm)) = vm_Conditions vm"
      by (simp add: stepSwitch_def AddError_def split: option.splits)
    then show ?thesis by simp
  next
    case created
    show ?thesis
    proof (cases "r_EnsureImport r vm")
      case (Some err)
      with created have "vm_Conditions (snd (stepSwitch r vm)) = vm_Conditions vm"
        by (simp add: stepSwitch_def AddError_def)
      then show ?thesis by simp
    next
      case None
      obtain rErr vm1 where u: "updateVM r vm = (rErr, vm1)"
        by (cases "updateVM r vm") auto
      with updateVM_conditions [OF ty, of r vm]
      have c: "HasCondition (vm_Conditions vm1) ty = HasCondition (vm_Conditions vm) ty"
        by simp
      have "vm_Conditions (snd (stepSwitch r vm)) = vm_Conditions vm1"
        using created None u
        by (simp add: stepSwitch_def stepImport_conditions split: option.splits)
      with c show ?thesis by simp
    qed
  next
    case unknown
    with phase have "vm_Conditions (snd (stepSwitch r vm)) = vm_Conditions vm"
      by (simp add: stepSwitch_def AddError_def Let_def)
    then show ?thesis by simp
  qed
qed

lemma stepStamp_outcome_ok:
  assumes r: "reflects_errors f"
    and s: "HasCondition (vm_Conditions u) Succeeded \<longrightarrow>
              vm_Phase u = Completed \<and> vm_Error u = None \<and>
              list_all (\<lambda>s. t_Error s = None) (vm_Pipeline u)"
    and f: "HasCondition (vm_Conditions u) Failed \<longrightarrow> vm_Error u \<noteq> None"
  shows "outcome_ok (stepStamp (f u))"
proof -
  from r have c: "vm_Conditions (f u) = vm_Conditions u" and p: "vm_Phase (f u) = vm_Phase u"
    and l: "vm_Pipeline (f u) = vm_Pipeline u"
    and e: "vm_Error (f u) = None \<longleftrightarrow>
              vm_Error u = None \<and> list_all (\<lambda>s. t_Error s = None) (vm_Pipeline u)"
    unfolding reflects_errors_def by blast+
  consider (succeeded) "vm_Phase (f u) = Completed" "vm_Error (f u) = None"
    | (failed) "vm_Error (f u) \<noteq> None"
    | (neither) "vm_Phase (f u) \<noteq> Completed" "vm_Error (f u) = None"
    by blast
  then show ?thesis
  proof cases
    case succeeded
    then have st: "stepStamp (f u) = vm_SetCondition cnd_Succeeded (f u)"
      by (simp add: stepStamp_def)
    from succeeded e f have "\<not> HasCondition (vm_Conditions u) Failed" by auto
    with succeeded e show ?thesis
      by (simp add: st outcome_ok_def vm_SetCondition_def HasCondition_SetCondition
          cnd_Succeeded_def c l)
  next
    case failed
    then have st: "stepStamp (f u) = vm_SetCondition cnd_Failed ((f u)\<lparr>vm_Phase := Completed\<rparr>)"
      by (auto simp: stepStamp_def)
    from failed e s have "\<not> HasCondition (vm_Conditions u) Succeeded" by auto
    with failed show ?thesis
      by (simp add: st outcome_ok_def vm_SetCondition_def HasCondition_SetCondition
          cnd_Failed_def c)
  next
    case neither
    then have st: "stepStamp (f u) = f u"
      by (simp add: stepStamp_def)
    from neither p s have ns: "\<not> HasCondition (vm_Conditions u) Succeeded" by auto
    from neither e f have "\<not> HasCondition (vm_Conditions u) Failed" by auto
    with ns show ?thesis
      by (simp add: st outcome_ok_def c)
  qed
qed

theorem step_outcome_ok:
  assumes ok: "outcome_ok vm"
    and r: "reflects_errors (r_ReflectPipeline r)"
    and h: "keeps_conditions (r_HookRunner_Run r)"
  shows "outcome_ok (snd (step r vm))"
proof (cases "Spec_Canceled (r_Cancel r) (vm_Ref vm)")
  case True
  with ok show ?thesis
    by (simp add: step_def outcome_ok_def vm_SetCondition_def HasCondition_SetCondition
        cnd_Canceled_def)
next
  case False
  obtain err u where sw: "stepSwitch r vm = (err, u)"
    by (cases "stepSwitch r vm") auto
  have s: "HasCondition (vm_Conditions u) Succeeded \<longrightarrow>
              vm_Phase u = Completed \<and> vm_Error u = None \<and>
              list_all (\<lambda>s. t_Error s = None) (vm_Pipeline u)"
    and f: "HasCondition (vm_Conditions u) Failed \<longrightarrow> vm_Error u \<noteq> None"
    and e: "err \<noteq> None \<longrightarrow> \<not> HasCondition (vm_Conditions u) Succeeded \<and>
              \<not> HasCondition (vm_Conditions u) Failed"
  proof -
    show "HasCondition (vm_Conditions u) Succeeded \<longrightarrow>
              vm_Phase u = Completed \<and> vm_Error u = None \<and>
              list_all (\<lambda>s. t_Error s = None) (vm_Pipeline u)"
    proof (cases "vm_Phase vm = Completed")
      case True
      with sw ok show ?thesis
        by (auto simp: stepSwitch_Completed MarkCompleted_frame outcome_ok_def)
    next
      case False
      from stepSwitch_conditions [OF False h, of Succeeded] sw False ok show ?thesis
        by (auto simp: outcome_ok_def)
    qed
    show "HasCondition (vm_Conditions u) Failed \<longrightarrow> vm_Error u \<noteq> None"
    proof (cases "vm_Phase vm = Completed")
      case True
      with sw ok show ?thesis
        by (auto simp: stepSwitch_Completed MarkCompleted_frame outcome_ok_def)
    next
      case False
      from stepSwitch_conditions [OF False h, of Failed] sw False ok show ?thesis
        by (auto simp: outcome_ok_def)
    qed
    show "err \<noteq> None \<longrightarrow> \<not> HasCondition (vm_Conditions u) Succeeded \<and>
              \<not> HasCondition (vm_Conditions u) Failed"
    proof (cases "vm_Phase vm = Completed")
      case True
      with sw show ?thesis by (simp add: stepSwitch_Completed)
    next
      case False
      from stepSwitch_conditions [OF False h, of Succeeded]
        stepSwitch_conditions [OF False h, of Failed] sw False ok show ?thesis
        by (auto simp: outcome_ok_def)
    qed
  qed
  show ?thesis
  proof (cases err)
    case None
    with False sw stepStamp_outcome_ok [OF r s f] show ?thesis
      by (simp add: step_def)
  next
    case (Some x)
    with e have "outcome_ok u" by (simp add: outcome_ok_def)
    with False sw Some show ?thesis by (simp add: step_def)
  qed
qed

lemma list_all_map_same: "(\<And>x. P (g x) = P x) \<Longrightarrow> list_all P (map g xs) = list_all P xs"
  by (induction xs) auto

lemma cancelLoop_outcome_ok:
  "list_all outcome_ok vms \<Longrightarrow> list_all outcome_ok (snd (cancelLoop r vms))"
proof (induction vms)
  case Nil
  then show ?case by simp
next
  case (Cons vm vms)
  let ?g = "\<lambda>s. if t_MarkedStarted s then t_MarkCompleted (r_now r) s else s"
  have g: "list_all (\<lambda>s. t_Error s = None) (map ?g (vm_Pipeline vm)) =
           list_all (\<lambda>s. t_Error s = None) (vm_Pipeline vm)"
    by (rule list_all_map_same) (simp add: t_MarkCompleted_def)
  have "outcome_ok vm \<Longrightarrow>
        outcome_ok ((MarkCompleted (r_now r) vm)\<lparr>vm_Pipeline := map ?g (vm_Pipeline vm)\<rparr>)"
    by (simp add: outcome_ok_def MarkCompleted_frame g)
  with Cons show ?case
    by (auto simp: Let_def MarkCompleted_frame split: option.splits prod.splits)
qed

lemma created_outcome_ok: "outcome_ok (resetStatus pipeline phase (newStatus vm))"
  by (simp add: outcome_ok_def resetStatus_def MarkReset_def newStatus_def DeleteCondition_def
      HasCondition_def FindCondition_def)

lemma one_execution_outcome_ok: "one_execution vm \<Longrightarrow> outcome_ok vm"
proof (induction rule: one_execution.induct)
  case (created pipeline phase vm)
  show ?case by (rule created_outcome_ok)
next
  case (stepped vm r)
  then show ?case by (simp add: step_outcome_ok)
next
  case (canceled vm r err vm')
  from cancelLoop_outcome_ok [of "[vm]" r] canceled show ?case by simp
qed

text \<open>
  Within one execution of a plan the outcome conditions stay in order: no status
  reached from one that \<^verbatim>\<open>begin\<close> has created, by calls of \<^verbatim>\<open>step\<close> and \<^verbatim>\<open>Cancel\<close>,
  has both \<^verbatim>\<open>Succeeded\<close> and \<^verbatim>\<open>Failed\<close>, and one that has either is in phase
  \<^verbatim>\<open>Completed\<close>. The run above leaves this set only through the reset of \<^verbatim>\<open>begin\<close>.
\<close>

theorem one_execution_outcomes:
  assumes "one_execution vm"
  shows "\<not> (HasCondition (vm_Conditions vm) Succeeded \<and> HasCondition (vm_Conditions vm) Failed) \<and>
         (HasCondition (vm_Conditions vm) Succeeded \<or> HasCondition (vm_Conditions vm) Failed \<longrightarrow>
            vm_Phase vm = Completed)"
  using one_execution_outcome_ok [OF assms] by (auto simp: outcome_ok_def)

theorem one_execution_outcomes_witness:
  "one_execution ex_Begun \<and> one_execution ex_Succeeded \<and>
   HasCondition (vm_Conditions ex_Succeeded) Succeeded \<and>
   \<not> HasCondition (vm_Conditions ex_Succeeded) Failed \<and>
   vm_Phase ex_Succeeded = Completed"
proof -
  have b: "resetStatus (vm_Pipeline ex_Begun) Started (newStatus ex_VM) = ex_Begun"
    by (simp add: resetStatus_def newStatus_def MarkReset_def DeleteCondition_def ex_Begun_def
        ex_VM_def)
  have e0: "one_execution ex_Begun"
    using one_execution.created [of "vm_Pipeline ex_Begun" Started ex_VM] by (simp add: b)
  have fr: "reflects_errors (r_ReflectPipeline ex_Migration)"
    "keeps_conditions (r_HookRunner_Run ex_Migration)"
    "reflects_errors (r_ReflectPipeline ex_Imported)"
    "keeps_conditions (r_HookRunner_Run ex_Imported)"
    by (simp_all add: ex_Imported_def ex_Migration_def reflects_errors_ReflectPipeline
        keeps_conditions_def)
  from one_execution.stepped [OF e0 fr(1,2)] have e1:
    "one_execution (ex_Begun\<lparr>vm_Started := Some 7, vm_Phase := CreateImport\<rparr>)"
    by (simp add: trace1)
  from one_execution.stepped [OF e1 fr(1,2)] have e2:
    "one_execution (ex_Begun\<lparr>vm_Started := Some 7, vm_Phase := ImportCreated\<rparr>)"
    by (simp add: trace2)
  from one_execution.stepped [OF e2 fr(3,4)] have e3: "one_execution ex_Succeeded"
    by (simp add: trace3)
  from one_execution_outcomes [OF e3] e0 e3 show ?thesis
    by (simp add: ex_Succeeded_def HasCondition_def FindCondition_def cnd_Succeeded_def)
qed

end
